theory Spec2Isabelle
  imports Main "HOL-Library.Word"
begin

unbundle bit_operations_syntax

section \<open>Data model\<close>

text \<open>
  The Bolt session layer of \<^verbatim>\<open>src/bolt/bolt_client.c\<close> and the chunked buffer of
  \<^verbatim>\<open>src/bolt/buffer.c\<close>. A C function that mutates \<^verbatim>\<open>*client\<close> or a buffer is a
  function from the old value to the new one. \<^verbatim>\<open>ASSERT\<close> traps: a failed assertion
  is the result \<open>Inl AssertionFailed\<close>. An access outside an allocated chunk, or
  outside the chunk array, is undefined behaviour in C and is the result
  \<open>Inl OutOfBounds\<close>.
\<close>

datatype error = AssertionFailed | OutOfBounds

type_synonym uint8_t = "8 word"
type_synonym uint16_t = "16 word"
type_synonym uint32_t = "32 word"
type_synonym uint64_t = "64 word"

text \<open>
  \<^verbatim>\<open>bolt_state\<close> and \<^verbatim>\<open>bolt_structure_type\<close> are the enumerations of the headers
  \<^verbatim>\<open>bolt_client.h\<close> and \<^verbatim>\<open>bolt.h\<close>; the constructors are the enumerators that
  \<^verbatim>\<open>bolt_client.c\<close> names. Requests and responses share one C type.
\<close>

datatype bolt_state =
    BS_NEGOTIATION
  | BS_AUTHENTICATION
  | BS_READY
  | BS_STREAMING
  | BS_TX_READY
  | BS_TX_STREAMING
  | BS_FAILED
  | BS_INTERRUPTED
  | BS_DEFUNCT

datatype bolt_structure_type =
    BST_HELLO
  | BST_LOGON
  | BST_LOGOFF
  | BST_RUN
  | BST_PULL
  | BST_DISCARD
  | BST_BEGIN
  | BST_COMMIT
  | BST_ROLLBACK
  | BST_ROUTE
  | BST_RESET
  | BST_GOODBYE
  | BST_SUCCESS
  | BST_FAILURE
  | BST_IGNORED
  | BST_RECORD

text \<open>
  A cursor \<^verbatim>\<open>buffer_index_t\<close> is a chunk number and an offset in that chunk. Its
  pointer \<^verbatim>\<open>buf\<close> to the owning buffer is not a field here: every function takes
  the chunks of the buffer the cursor points into as an argument. The chunk number is an
  \<^verbatim>\<open>int32_t\<close> (it is compared with an \<^verbatim>\<open>int32_t\<close> loop counter in
  \<^verbatim>\<open>buffer_socket_write\<close>), the offset a \<^verbatim>\<open>uint32_t\<close>; both are 32-bit words, and
  the chunk number is read with \<open>sint\<close> where the sign matters.
\<close>

record buffer_index_t =
  chunk :: uint32_t
  offset :: uint32_t

text \<open>
  The field \<^verbatim>\<open>write\<close> of \<^verbatim>\<open>buffer_t\<close> is \<open>write'\<close> here and the field
  \<^verbatim>\<open>write\<close> of \<^verbatim>\<open>bolt_client_t\<close> is \<open>client_write\<close>, since \<open>write\<close> is a
  reserved word.
\<close>

record buffer_t =
  chunks :: "uint8_t list list"
  read :: buffer_index_t
  write' :: buffer_index_t

text \<open>
  Modelled from the spec: the socket primitives \<^verbatim>\<open>socket_read\<close> and
  \<^verbatim>\<open>socket_write_all\<close> of the host (section 6 of the spec; \<^verbatim>\<open>socket.c\<close> is not
  part of the sources). A socket holds the bytes the peer has sent and that are not yet
  read, what a read reports once they are used up (end of file, or an error), the bytes
  written so far, and whether writing fails.
\<close>

datatype socket_end = SOCKET_EOF | SOCKET_ERROR

record socket_t =
  fd :: int
  inbound :: "uint8_t list"
  inbound_end :: socket_end
  outbound :: "uint8_t list"
  write_fails :: bool

text \<open>
  The session \<^verbatim>\<open>bolt_client_t\<close>, with the fields that \<^verbatim>\<open>bolt_client_new\<close> sets.
  The module context and the write callback are opaque handles.
\<close>

record bolt_client_t =
  socket :: socket_t
  state :: bolt_state
  ctx :: nat
  on_write :: nat
  ws :: bool
  reset :: bool
  processing :: bool
  shutdown :: bool
  read_buf :: buffer_t
  msg_buf :: buffer_t
  write_buf :: buffer_t
  client_write :: buffer_index_t

section \<open>The chunked buffer\<close>

text \<open>
  Modelled from the spec: the macro \<^verbatim>\<open>BUFFER_CHUNK_SIZE\<close> of \<^verbatim>\<open>buffer.h\<close>, which
  is not part of the sources; section 3 of the spec has chunks of one fixed size, chosen
  by the implementation, and names 4096.
\<close>

definition BUFFER_CHUNK_SIZE :: uint32_t where
  "BUFFER_CHUNK_SIZE = 4096"

text \<open>Sequencing of steps that may trap: the first error ends the run.\<close>

definition seq :: "error + 'a \<Rightarrow> ('a \<Rightarrow> error + 'b) \<Rightarrow> error + 'b" where
  "seq m f = (case m of Inl e \<Rightarrow> Inl e | Inr x \<Rightarrow> f x)"

text \<open>
  Memory. A buffer's \<^verbatim>\<open>chunks\<close> array is a list of chunks and a chunk is the list
  of its bytes; \<^verbatim>\<open>rm_malloc(BUFFER_CHUNK_SIZE)\<close> gives a chunk of that many bytes
  (its content is unspecified in C, zero here). \<open>chunk_ptr\<close> is the pointer
  expression \<^verbatim>\<open>chunks[chunk] + offset\<close>, which needs an existing chunk and an offset
  of at most the chunk size; \<open>chunk_load\<close> reads \<open>n\<close> bytes through such a
  pointer and \<open>chunk_store\<close> is \<^verbatim>\<open>memcpy\<close> to it: both need the whole range
  inside the chunk.
\<close>

definition rm_malloc_chunk :: "uint8_t list" where
  "rm_malloc_chunk = replicate (unat BUFFER_CHUNK_SIZE) 0"

definition array_len :: "uint8_t list list \<Rightarrow> uint32_t" where
  "array_len chs = of_nat (length chs)"

definition chunk_valid :: "uint8_t list list \<Rightarrow> uint32_t \<Rightarrow> bool" where
  "chunk_valid chs c \<longleftrightarrow>
     0 \<le> sint c \<and> nat (sint c) < length chs \<and>
     length (chs ! nat (sint c)) = unat BUFFER_CHUNK_SIZE"

definition chunk_ptr :: "uint8_t list list \<Rightarrow> buffer_index_t \<Rightarrow> error + buffer_index_t" where
  "chunk_ptr chs index =
     (if chunk_valid chs (chunk index) \<and> offset index \<le> BUFFER_CHUNK_SIZE
      then Inr index else Inl OutOfBounds)"

definition chunk_load :: "uint8_t list list \<Rightarrow> buffer_index_t \<Rightarrow> nat \<Rightarrow> error + uint8_t list" where
  "chunk_load chs ptr n =
     (if chunk_valid chs (chunk ptr) \<and> unat (offset ptr) + n \<le> unat BUFFER_CHUNK_SIZE
      then Inr (take n (drop (unat (offset ptr)) (chs ! nat (sint (chunk ptr)))))
      else Inl OutOfBounds)"

definition chunk_store ::
  "uint8_t list list \<Rightarrow> buffer_index_t \<Rightarrow> uint8_t list \<Rightarrow> error + uint8_t list list" where
  "chunk_store chs ptr data =
     (if chunk_valid chs (chunk ptr) \<and> unat (offset ptr) + length data \<le> unat BUFFER_CHUNK_SIZE
      then Inr (chs[nat (sint (chunk ptr)) :=
                  take (unat (offset ptr)) (chs ! nat (sint (chunk ptr))) @ data @
                  drop (unat (offset ptr) + length data) (chs ! nat (sint (chunk ptr)))])
      else Inl OutOfBounds)"

text \<open>
  Scalars lie in memory in host byte order, taken as little-endian (x86-64, AArch64):
  \<open>le_bytes n v\<close> are the \<open>n\<close> bytes of \<open>v\<close> and \<open>le_word\<close> reads them back.
  On such a host \<^verbatim>\<open>htons\<close> swaps the two bytes.
\<close>

definition le_bytes :: "nat \<Rightarrow> 'a::len word \<Rightarrow> uint8_t list" where
  "le_bytes n v = map (\<lambda>i. ucast (drop_bit (8 * i) v)) [0..<n]"

fun le_word :: "uint8_t list \<Rightarrow> 'a::len word" where
  "le_word [] = 0"
| "le_word (b # bs) = ucast b OR push_bit 8 (le_word bs)"

definition htons :: "uint16_t \<Rightarrow> uint16_t" where
  "htons v = push_bit 8 v OR drop_bit 8 v"

subsection \<open>Cursors\<close>

definition buffer_index :: "buffer_t \<Rightarrow> uint32_t \<Rightarrow> error + buffer_index_t" where
  "buffer_index buf off =
     (if \<not> off < BUFFER_CHUNK_SIZE * array_len (chunks buf) then Inl AssertionFailed
      else Inr \<lparr>chunk = off div BUFFER_CHUNK_SIZE, offset = off mod BUFFER_CHUNK_SIZE\<rparr>)"

definition buffer_index_add :: "buffer_index_t \<Rightarrow> uint32_t \<Rightarrow> buffer_index_t" where
  "buffer_index_add index off =
     (let index1 = index\<lparr>offset := offset index + off\<rparr> in
      if offset index1 > BUFFER_CHUNK_SIZE
      then index1\<lparr>chunk := chunk index1 + offset index1 div BUFFER_CHUNK_SIZE,
                  offset := offset index1 mod BUFFER_CHUNK_SIZE\<rparr>
      else index1)"

text \<open>
  The difference is computed in 32 bits and cut to the 16 bits of the result type. (The
  product is a signed multiplication in C; it does not overflow as long as the two
  cursors are less than \<open>2 ^ 31\<close> bytes apart.)
\<close>

definition buffer_index_diff :: "buffer_index_t \<Rightarrow> buffer_index_t \<Rightarrow> uint16_t" where
  "buffer_index_diff a b =
     ucast ((chunk a - chunk b) * BUFFER_CHUNK_SIZE + (offset a - offset b))"

text \<open>
  \<^verbatim>\<open>buffer_index_read\<close> returns the pointer to the data, here the place the cursor
  had, and advances the cursor. \<open>buf\<close> is the buffer the cursor points into.
\<close>

definition buffer_index_read ::
  "buffer_t \<Rightarrow> buffer_index_t \<Rightarrow> uint32_t \<Rightarrow> error + (buffer_index_t \<times> buffer_index_t)" where
  "buffer_index_read buf index size' =
     (if \<not> ucast (buffer_index_diff (write' buf) index) \<ge> size' then Inl AssertionFailed
      else seq (chunk_ptr (chunks buf) index) (\<lambda>ptr. Inr (ptr, buffer_index_add index size')))"

definition buffer_new :: "error + buffer_t" where
  "buffer_new =
     (let buf = \<lparr>chunks = [] @ [rm_malloc_chunk],
                 read = \<lparr>chunk = 0, offset = 0\<rparr>, write' = \<lparr>chunk = 0, offset = 0\<rparr>\<rparr> in
      seq (buffer_index buf 0) (\<lambda>r.
      seq (buffer_index buf 0) (\<lambda>w. Inr (buf\<lparr>read := r, write' := w\<rparr>))))"

subsection \<open>Positions\<close>

text \<open>
  The byte position that a cursor denotes in its buffer, counted from the start of
  chunk 0. A cursor of a buffer has a chunk number that is not negative and an offset of
  at most the chunk size (an offset equal to the chunk size is left by
  \<^verbatim>\<open>buffer_index_add\<close> and rolled over by the next write); \<open>index_before b a\<close> is
  the chunk-major order.
\<close>

definition index_position :: "buffer_index_t \<Rightarrow> nat" where
  "index_position index = unat (chunk index) * unat BUFFER_CHUNK_SIZE + unat (offset index)"

definition index_before :: "buffer_index_t \<Rightarrow> buffer_index_t \<Rightarrow> bool" where
  "index_before b a \<longleftrightarrow>
     sint (chunk b) < sint (chunk a) \<or> chunk b = chunk a \<and> offset b \<le> offset a"

definition index_ok :: "buffer_index_t \<Rightarrow> bool" where
  "index_ok index \<longleftrightarrow> 0 \<le> sint (chunk index) \<and> offset index \<le> BUFFER_CHUNK_SIZE"

subsection \<open>Typed reads\<close>

text \<open>
  Each typed read is \<^verbatim>\<open>*(uintN_t *)buffer_index_read(buf, N / 8)\<close>: it dereferences the
  pointer that \<^verbatim>\<open>buffer_index_read\<close> returns and so reads all the bytes of the scalar
  in that one chunk. \<open>buffer_read_scalar n\<close> is this common body for a scalar of \<open>n\<close>
  bytes; \<open>b\<close> is the buffer the cursor \<open>buf\<close> points into. The result is the value
  and the advanced cursor.
\<close>

definition buffer_read_scalar ::
  "nat \<Rightarrow> buffer_t \<Rightarrow> buffer_index_t \<Rightarrow> error + ('a::len word \<times> buffer_index_t)" where
  "buffer_read_scalar n b buf =
     seq (buffer_index_read b buf (of_nat n)) (\<lambda>(ptr, buf1).
     seq (chunk_load (chunks b) ptr n) (\<lambda>bytes. Inr (le_word bytes, buf1)))"

definition buffer_read_uint8 :: "buffer_t \<Rightarrow> buffer_index_t \<Rightarrow> error + (uint8_t \<times> buffer_index_t)" where
  "buffer_read_uint8 b buf = buffer_read_scalar 1 b buf"

definition buffer_read_uint16 :: "buffer_t \<Rightarrow> buffer_index_t \<Rightarrow> error + (uint16_t \<times> buffer_index_t)" where
  "buffer_read_uint16 b buf = buffer_read_scalar 2 b buf"

definition buffer_read_uint32 :: "buffer_t \<Rightarrow> buffer_index_t \<Rightarrow> error + (uint32_t \<times> buffer_index_t)" where
  "buffer_read_uint32 b buf = buffer_read_scalar 4 b buf"

definition buffer_read_uint64 :: "buffer_t \<Rightarrow> buffer_index_t \<Rightarrow> error + (uint64_t \<times> buffer_index_t)" where
  "buffer_read_uint64 b buf = buffer_read_scalar 8 b buf"

subsection \<open>Writes\<close>

text \<open>
  \<^verbatim>\<open>buffer_write(buf, data, size)\<close>: \<open>chs\<close> are the chunks of the buffer the cursor
  \<open>buf\<close> points into, \<open>data\<close> the \<open>size\<close> bytes at \<^verbatim>\<open>data\<close>. The result is the
  chunks and the cursor after the write.
\<close>

function buffer_write ::
  "uint8_t list list \<Rightarrow> buffer_index_t \<Rightarrow> uint8_t list \<Rightarrow>
   error + (uint8_t list list \<times> buffer_index_t)" where
  "buffer_write chs buf data =
     (let size' = (of_nat (length data) :: uint32_t) in
      if offset buf + size' > BUFFER_CHUNK_SIZE then
        let first_chunk_size = BUFFER_CHUNK_SIZE - offset buf in
        if length data < unat first_chunk_size then Inl OutOfBounds
        else
          case chunk_store chs buf (take (unat first_chunk_size) data) of
            Inl e \<Rightarrow> Inl e
          | Inr chs1 \<Rightarrow>
              let buf1 = buffer_index_add buf first_chunk_size;
                  buf2 = buf1\<lparr>chunk := chunk buf1 + 1, offset := 0\<rparr>;
                  chs2 = (if array_len chs1 = chunk buf2 then chs1 @ [rm_malloc_chunk] else chs1)
              in buffer_write chs2 buf2 (drop (unat first_chunk_size) data)
      else
        seq (chunk_store chs buf data) (\<lambda>chs1. Inr (chs1, buffer_index_add buf size')))"
  by pat_completeness auto
termination
proof (relation "measures [\<lambda>(chs, buf, data). length data,
                           \<lambda>(chs, buf, data). if offset buf = 0 then 0 else 1]")
  show "wf (measures [\<lambda>(chs, buf, data). length data,
                      \<lambda>(chs, buf, data). if offset buf = (0::uint32_t) then 0 else (1::nat)])"
    by simp
next
  fix chs :: "uint8_t list list" and buf :: buffer_index_t and data :: "uint8_t list"
    and size' first_chunk_size :: uint32_t and chs1 chs2 :: "uint8_t list list"
    and buf1 buf2 :: buffer_index_t
  assume size': "size' = of_nat (length data)"
    and gt: "BUFFER_CHUNK_SIZE < offset buf + size'"
    and first: "first_chunk_size = BUFFER_CHUNK_SIZE - offset buf"
    and buf2: "buf2 = buf1\<lparr>chunk := chunk buf1 + 1, offset := 0\<rparr>"
  have nonempty: "data \<noteq> []" if "offset buf = 0"
  proof
    assume "data = []"
    with size' have "size' = 0" by simp
    with gt that show False by (simp add: BUFFER_CHUNK_SIZE_def)
  qed
  have off2: "offset buf2 = 0" using buf2 by simp
  show "((chs2, buf2, drop (unat first_chunk_size) data), (chs, buf, data))
          \<in> measures [\<lambda>(chs, buf, data). length data,
                       \<lambda>(chs, buf, data). if offset buf = 0 then 0 else 1]"
  proof (cases "offset buf = 0")
    case True
    then have "unat first_chunk_size = 4096" using first by (simp add: BUFFER_CHUNK_SIZE_def)
    with nonempty[OF True] show ?thesis by (simp add: off2)
  next
    case False
    then show ?thesis by (auto simp: off2)
  qed
qed

declare buffer_write.simps [simp del]

definition buffer_write_uint8 ::
  "uint8_t list list \<Rightarrow> buffer_index_t \<Rightarrow> uint8_t \<Rightarrow> error + (uint8_t list list \<times> buffer_index_t)" where
  "buffer_write_uint8 chs buf v = buffer_write chs buf (le_bytes 1 v)"

definition buffer_write_uint16 ::
  "uint8_t list list \<Rightarrow> buffer_index_t \<Rightarrow> uint16_t \<Rightarrow> error + (uint8_t list list \<times> buffer_index_t)" where
  "buffer_write_uint16 chs buf v = buffer_write chs buf (le_bytes 2 v)"

definition buffer_write_uint32 ::
  "uint8_t list list \<Rightarrow> buffer_index_t \<Rightarrow> uint32_t \<Rightarrow> error + (uint8_t list list \<times> buffer_index_t)" where
  "buffer_write_uint32 chs buf v = buffer_write chs buf (le_bytes 4 v)"

definition buffer_write_uint64 ::
  "uint8_t list list \<Rightarrow> buffer_index_t \<Rightarrow> uint64_t \<Rightarrow> error + (uint8_t list list \<times> buffer_index_t)" where
  "buffer_write_uint64 chs buf v = buffer_write chs buf (le_bytes 8 v)"

subsection \<open>Bulk copy\<close>

text \<open>
  \<^verbatim>\<open>buffer_read(buf, dst, size)\<close> copies from the cursor \<open>buf\<close> of the buffer \<open>b\<close>
  to the cursor \<open>dst\<close> of another buffer with chunks \<open>dchs\<close>. \<open>memcpy_chunk\<close> is
  one \<^verbatim>\<open>memcpy(dst_ptr, src_ptr, n)\<close>; \<open>buffer_read_loop\<close> is the \<^verbatim>\<open>while\<close>
  loop. The result is the source cursor, the destination chunks and the destination
  cursor after the copy.
\<close>

definition memcpy_chunk ::
  "uint8_t list list \<Rightarrow> buffer_index_t \<Rightarrow> uint8_t list list \<Rightarrow> buffer_index_t \<Rightarrow> nat \<Rightarrow>
   error + uint8_t list list" where
  "memcpy_chunk dchs dst_ptr schs src_ptr n =
     seq (chunk_load schs src_ptr n) (\<lambda>bytes. chunk_store dchs dst_ptr bytes)"

lemma chunk_ptr_le: "chunk_ptr chs i = Inr p \<Longrightarrow> unat (offset i) \<le> 4096"
  by (auto simp: chunk_ptr_def BUFFER_CHUNK_SIZE_def word_le_nat_alt split: if_splits)

function buffer_read_loop ::
  "uint8_t list list \<Rightarrow> buffer_index_t \<Rightarrow> uint8_t list list \<Rightarrow> buffer_index_t \<Rightarrow> uint32_t \<Rightarrow>
   error + (buffer_index_t \<times> uint8_t list list \<times> buffer_index_t)" where
  "buffer_read_loop schs buf dchs dst size' =
     (if size' > 0 then
        case chunk_ptr schs buf of
          Inl e \<Rightarrow> Inl e
        | Inr src_ptr \<Rightarrow>
       (case chunk_ptr dchs dst of
          Inl e \<Rightarrow> Inl e
        | Inr dst_ptr \<Rightarrow>
        let dst_available_size = BUFFER_CHUNK_SIZE - offset dst;
            src_available_size = BUFFER_CHUNK_SIZE - offset buf in
        if size' < src_available_size \<and> size' < dst_available_size then
          seq (memcpy_chunk dchs dst_ptr schs src_ptr (unat size')) (\<lambda>dchs1.
            Inr (buffer_index_add buf size', dchs1, buffer_index_add dst size'))
        else if src_available_size < dst_available_size then
          (case memcpy_chunk dchs dst_ptr schs src_ptr (unat src_available_size) of
            Inl e \<Rightarrow> Inl e
          | Inr dchs1 \<Rightarrow>
              buffer_read_loop schs (buf\<lparr>offset := 0, chunk := chunk buf + 1\<rparr>)
                dchs1 (dst\<lparr>offset := offset dst + src_available_size\<rparr>)
                (size' - src_available_size))
        else
          (case memcpy_chunk dchs dst_ptr schs src_ptr (unat dst_available_size) of
            Inl e \<Rightarrow> Inl e
          | Inr dchs1 \<Rightarrow>
              let dst1 = dst\<lparr>offset := 0, chunk := chunk dst + 1\<rparr>;
                  dchs2 = (if array_len dchs1 = chunk dst1 then dchs1 @ [rm_malloc_chunk]
                           else dchs1)
              in buffer_read_loop schs (buf\<lparr>offset := offset buf + dst_available_size\<rparr>)
                   dchs2 dst1 (size' - dst_available_size)))
      else Inr (buf, dchs, dst))"
  by pat_completeness auto

termination
proof (relation "measure (\<lambda>(schs, buf, dchs, dst, size').
         2 * unat size' + (if offset buf = BUFFER_CHUNK_SIZE then 1 else 0)
                        + (if offset dst = BUFFER_CHUNK_SIZE then 1 else 0))", goal_cases)
  case 1
  show ?case by simp
next
  case (2 schs buf dchs dst size' b ba x xa bb)
  have ob: "unat (offset buf) \<le> 4096" and od: "unat (offset dst) \<le> 4096"
    using 2 by (auto dest: chunk_ptr_le)
  have x: "unat x = 4096 - unat (offset dst)" and xa: "unat xa = 4096 - unat (offset buf)"
    using 2 ob od by (simp_all add: BUFFER_CHUNK_SIZE_def unat_sub word_le_nat_alt)
  have lt: "unat xa < unat x" using 2 by (simp add: word_less_nat_alt)
  have ge: "unat xa \<le> unat size'" using 2 lt by (auto simp: word_less_nat_alt)
  have sz: "unat (size' - xa) = unat size' - unat xa"
    using ge by (simp add: unat_sub word_le_nat_alt)
  have nd: "unat (offset dst + xa) = unat (offset dst) + unat xa"
    using od xa lt x by (simp add: unat_add_lem[THEN iffD1])
  have flag: "offset dst + xa \<noteq> BUFFER_CHUNK_SIZE"
  proof
    assume "offset dst + xa = BUFFER_CHUNK_SIZE"
    then have "unat (offset dst + xa) = 4096" by (simp add: BUFFER_CHUNK_SIZE_def)
    with nd lt x show False by simp
  qed
  show ?case
  proof (cases "offset buf = BUFFER_CHUNK_SIZE")
    case True
    then show ?thesis using flag sz by (simp add: BUFFER_CHUNK_SIZE_def)
  next
    case False
    then have "unat (offset buf) \<noteq> 4096"
      by (simp add: word_unat_eq_iff BUFFER_CHUNK_SIZE_def)
    then have pos: "0 < unat xa" using xa ob by simp
    then show ?thesis using flag sz ge False by (auto simp: BUFFER_CHUNK_SIZE_def)
  qed
next
  case (3 schs buf dchs dst size' b ba x xa bb xaa xab)
  have ob: "unat (offset buf) \<le> 4096" and od: "unat (offset dst) \<le> 4096"
    using 3 by (auto dest: chunk_ptr_le)
  have x: "unat x = 4096 - unat (offset dst)" and xa: "unat xa = 4096 - unat (offset buf)"
    using 3 ob od by (simp_all add: BUFFER_CHUNK_SIZE_def unat_sub word_le_nat_alt)
  have le: "unat x \<le> unat xa" using 3 by (simp add: word_less_nat_alt)
  have ge: "unat x \<le> unat size'" using 3 le by (auto simp: word_less_nat_alt)
  have sz: "unat (size' - x) = unat size' - unat x"
    using ge by (simp add: unat_sub word_le_nat_alt)
  have dflag: "offset xaa \<noteq> BUFFER_CHUNK_SIZE" using 3 by (simp add: BUFFER_CHUNK_SIZE_def)
  show ?case
  proof (cases "offset dst = BUFFER_CHUNK_SIZE")
    case True
    then have "x = 0" using 3 by simp
    then show ?thesis using True dflag by simp
  next
    case False
    then have "unat (offset dst) \<noteq> 4096"
      by (simp add: word_unat_eq_iff BUFFER_CHUNK_SIZE_def)
    then have pos: "0 < unat x" using x od by simp
    then have "x \<noteq> 0" by auto
    with pos show ?thesis using dflag sz ge False by auto
  qed
qed

declare buffer_read_loop.simps [simp del]

definition buffer_read ::
  "buffer_t \<Rightarrow> buffer_index_t \<Rightarrow> uint8_t list list \<Rightarrow> buffer_index_t \<Rightarrow> uint32_t \<Rightarrow>
   error + (buffer_index_t \<times> uint8_t list list \<times> buffer_index_t)" where
  "buffer_read b buf dchs dst size' =
     (if \<not> ucast (buffer_index_diff (write' b) buf) \<ge> size' then Inl AssertionFailed
      else buffer_read_loop (chunks b) buf dchs dst size')"

subsection \<open>Socket input and output\<close>

text \<open>
  Modelled from the spec: \<^verbatim>\<open>socket_read(socket, buf, n)\<close> is non-blocking, negative
  on error and 0 at end of file; it gives the bytes read with its result.
  \<^verbatim>\<open>socket_write_all(socket, buf, n)\<close> sends all the bytes or fails.
\<close>

definition socket_read :: "socket_t \<Rightarrow> nat \<Rightarrow> int \<times> uint8_t list \<times> socket_t" where
  "socket_read sock n =
     (if n = 0 then (0, [], sock)
      else if inbound sock = [] then
        ((case inbound_end sock of SOCKET_EOF \<Rightarrow> 0 | SOCKET_ERROR \<Rightarrow> - 1), [], sock)
      else (int (length (take n (inbound sock))), take n (inbound sock),
            sock\<lparr>inbound := drop n (inbound sock)\<rparr>))"

definition socket_write_all :: "socket_t \<Rightarrow> uint8_t list \<Rightarrow> bool \<times> socket_t" where
  "socket_write_all sock bytes =
     (if write_fails sock then (False, sock)
      else (True, sock\<lparr>outbound := outbound sock @ bytes\<rparr>))"

function buffer_socket_read_loop ::
  "buffer_t \<Rightarrow> socket_t \<Rightarrow> error + (bool \<times> buffer_t \<times> socket_t)" where
  "buffer_socket_read_loop buf sock =
     (if offset (write' buf) = BUFFER_CHUNK_SIZE then
        let w = (write' buf)\<lparr>offset := 0, chunk := chunk (write' buf) + 1\<rparr>;
            buf1 = buf\<lparr>write' := w, chunks := chunks buf @ [rm_malloc_chunk]\<rparr> in
        case chunk_ptr (chunks buf1) w of
          Inl e \<Rightarrow> Inl e
        | Inr ptr \<Rightarrow>
           (case socket_read sock (unat BUFFER_CHUNK_SIZE) of (nread, bytes, sock1) \<Rightarrow>
              if nread < 0 then Inr (False, buf1, sock1)
              else
                (case chunk_store (chunks buf1) ptr bytes of
                   Inl e \<Rightarrow> Inl e
                 | Inr chs \<Rightarrow>
                     buffer_socket_read_loop
                       (buf1\<lparr>chunks := chs, write' := buffer_index_add w (of_int nread)\<rparr>)
                       sock1))
      else Inr (True, buf, sock))"
  by pat_completeness auto
termination
  by (relation "measures [\<lambda>(buf, sock). length (inbound sock),
                          \<lambda>(buf, sock). if offset (write' buf) = BUFFER_CHUNK_SIZE then 1 else 0]")
     (auto simp: socket_read_def buffer_index_add_def BUFFER_CHUNK_SIZE_def
           split: if_splits socket_end.splits)

declare buffer_socket_read_loop.simps [simp del]

definition buffer_socket_read :: "buffer_t \<Rightarrow> socket_t \<Rightarrow> error + (bool \<times> buffer_t \<times> socket_t)" where
  "buffer_socket_read buf sock =
     (if \<not> fd sock > 0 then Inl AssertionFailed
      else
        seq (chunk_ptr (chunks buf) (write' buf)) (\<lambda>ptr.
        case socket_read sock (unat (BUFFER_CHUNK_SIZE - offset (write' buf))) of
          (nread, bytes, sock1) \<Rightarrow>
            if nread < 0 \<or> nread = 0 \<and> offset (write' buf) < BUFFER_CHUNK_SIZE
            then Inr (False, buf, sock1)
            else
              seq (chunk_store (chunks buf) ptr bytes) (\<lambda>chs.
                buffer_socket_read_loop
                  (buf\<lparr>chunks := chs, write' := buffer_index_add (write' buf) (of_int nread)\<rparr>)
                  sock1)))"

text \<open>
  \<^verbatim>\<open>buffer_socket_write(buf, socket)\<close>: \<open>socket_write_chunks\<close> is the \<^verbatim>\<open>for\<close> loop
  over the full chunks before the cursor's chunk, given the chunk numbers it visits.
\<close>

fun socket_write_chunks ::
  "uint8_t list list \<Rightarrow> nat list \<Rightarrow> socket_t \<Rightarrow> error + (bool \<times> socket_t)" where
  "socket_write_chunks chs [] sock = Inr (True, sock)"
| "socket_write_chunks chs (i # rest) sock =
     (case chunk_load chs \<lparr>chunk = of_nat i, offset = 0\<rparr> (unat BUFFER_CHUNK_SIZE) of
        Inl e \<Rightarrow> Inl e
      | Inr bytes \<Rightarrow>
          (case socket_write_all sock bytes of (ok, sock1) \<Rightarrow>
             if \<not> ok then Inr (False, sock1) else socket_write_chunks chs rest sock1))"

definition buffer_socket_write ::
  "uint8_t list list \<Rightarrow> buffer_index_t \<Rightarrow> socket_t \<Rightarrow> error + (bool \<times> socket_t)" where
  "buffer_socket_write chs buf sock =
     (if \<not> fd sock > 0 then Inl AssertionFailed
      else
        seq (socket_write_chunks chs [0..<nat (sint (chunk buf))] sock) (\<lambda>(ok, sock1).
          if \<not> ok then Inr (False, sock1)
          else seq (chunk_load chs (buf\<lparr>offset := 0\<rparr>) (unat (offset buf))) (\<lambda>bytes.
                 Inr (socket_write_all sock1 bytes))))"

section \<open>The client session\<close>

text \<open>
  Writes through the two cursors of the outbound buffer: \<open>write_buf_write\<close> is a
  \<^verbatim>\<open>buffer_write\<close> at \<^verbatim>\<open>&client->write_buf.write\<close> and \<open>client_write_write\<close> one
  at \<^verbatim>\<open>&client->write\<close>, which points into the same buffer.
\<close>

definition write_buf_write :: "bolt_client_t \<Rightarrow> uint8_t list \<Rightarrow> error + bolt_client_t" where
  "write_buf_write client data =
     seq (buffer_write (chunks (write_buf client)) (write' (write_buf client)) data) (\<lambda>(chs, w).
       Inr (client\<lparr>write_buf := (write_buf client)\<lparr>chunks := chs, write' := w\<rparr>\<rparr>))"

definition client_write_write :: "bolt_client_t \<Rightarrow> uint8_t list \<Rightarrow> error + bolt_client_t" where
  "client_write_write client data =
     seq (buffer_write (chunks (write_buf client)) (client_write client) data) (\<lambda>(chs, w).
       Inr (client\<lparr>write_buf := (write_buf client)\<lparr>chunks := chs\<rparr>, client_write := w\<rparr>))"

text \<open>
  Modelled from the spec: \<^verbatim>\<open>bolt_reply_structure\<close> and \<^verbatim>\<open>bolt_reply_map\<close> of the
  PackStream codec (\<^verbatim>\<open>bolt.c\<close> is not part of the sources). By sections 4.5 and 6 of
  the spec they append a structure header (marker with the field count, then the tag of
  the response kind) and a map header to the write buffer. The bytes of the two headers
  are a parameter \<open>codec\<close>.
\<close>

record packstream_t =
  structure_header :: "bolt_structure_type \<Rightarrow> uint32_t \<Rightarrow> uint8_t list"
  map_header :: "uint32_t \<Rightarrow> uint8_t list"

definition bolt_reply_structure ::
  "packstream_t \<Rightarrow> bolt_client_t \<Rightarrow> bolt_structure_type \<Rightarrow> uint32_t \<Rightarrow> error + bolt_client_t" where
  "bolt_reply_structure codec client type' size' =
     write_buf_write client (structure_header codec type' size')"

definition bolt_reply_map ::
  "packstream_t \<Rightarrow> bolt_client_t \<Rightarrow> uint32_t \<Rightarrow> error + bolt_client_t" where
  "bolt_reply_map codec client size' = write_buf_write client (map_header codec size')"

definition bolt_client_new :: "socket_t \<Rightarrow> nat \<Rightarrow> nat \<Rightarrow> error + bolt_client_t" where
  "bolt_client_new sock ctx' on_write' =
     (if \<not> fd sock > 0 then Inl AssertionFailed
      else
        seq buffer_new (\<lambda>msg.
        seq buffer_new (\<lambda>rd.
        seq buffer_new (\<lambda>wr.
        seq (buffer_index wr 0) (\<lambda>w.
          write_buf_write
            \<lparr>socket = sock, state = BS_NEGOTIATION, ctx = ctx', on_write = on_write',
             ws = False, reset = False, processing = False, shutdown = False,
             read_buf = rd, msg_buf = msg, write_buf = wr, client_write = w\<rparr>
            (le_bytes 2 (htons 0x0000)))))))"

section \<open>The session state machine\<close>

definition bolt_change_negotiation_state ::
  "bolt_client_t \<Rightarrow> bolt_structure_type \<Rightarrow> bolt_structure_type \<Rightarrow> error + bolt_client_t" where
  "bolt_change_negotiation_state client request_type response_type =
     (if \<not> (state client = BS_NEGOTIATION \<and> request_type = BST_HELLO) then Inl AssertionFailed
      else case response_type of
          BST_SUCCESS \<Rightarrow> Inr (client\<lparr>state := BS_AUTHENTICATION\<rparr>)
        | BST_FAILURE \<Rightarrow> Inr (client\<lparr>state := BS_DEFUNCT\<rparr>)
        | _ \<Rightarrow> Inl AssertionFailed)"

definition bolt_change_authentication_state ::
  "bolt_client_t \<Rightarrow> bolt_structure_type \<Rightarrow> bolt_structure_type \<Rightarrow> error + bolt_client_t" where
  "bolt_change_authentication_state client request_type response_type =
     (if \<not> (state client = BS_AUTHENTICATION \<and> request_type = BST_LOGON) then Inl AssertionFailed
      else case response_type of
          BST_SUCCESS \<Rightarrow> Inr (client\<lparr>state := BS_READY\<rparr>)
        | BST_FAILURE \<Rightarrow> Inr (client\<lparr>state := BS_DEFUNCT\<rparr>)
        | _ \<Rightarrow> Inl AssertionFailed)"

definition bolt_change_ready_state ::
  "bolt_client_t \<Rightarrow> bolt_structure_type \<Rightarrow> bolt_structure_type \<Rightarrow> error + bolt_client_t" where
  "bolt_change_ready_state client request_type response_type =
     (if state client \<noteq> BS_READY then Inl AssertionFailed
      else case request_type of
          BST_LOGOFF \<Rightarrow>
            (case response_type of
                BST_SUCCESS \<Rightarrow> Inr (client\<lparr>state := BS_AUTHENTICATION\<rparr>)
              | BST_FAILURE \<Rightarrow> Inr (client\<lparr>state := BS_FAILED\<rparr>)
              | _ \<Rightarrow> Inl AssertionFailed)
        | BST_RUN \<Rightarrow>
            (case response_type of
                BST_SUCCESS \<Rightarrow> Inr (client\<lparr>state := BS_STREAMING\<rparr>)
              | BST_FAILURE \<Rightarrow> Inr (client\<lparr>state := BS_FAILED\<rparr>)
              | _ \<Rightarrow> Inl AssertionFailed)
        | BST_BEGIN \<Rightarrow>
            (case response_type of
                BST_SUCCESS \<Rightarrow> Inr (client\<lparr>state := BS_TX_READY\<rparr>)
              | BST_FAILURE \<Rightarrow> Inr (client\<lparr>state := BS_FAILED\<rparr>)
              | _ \<Rightarrow> Inl AssertionFailed)
        | BST_ROUTE \<Rightarrow>
            (case response_type of
                BST_SUCCESS \<Rightarrow> Inr (client\<lparr>state := BS_READY\<rparr>)
              | _ \<Rightarrow> Inl AssertionFailed)
        | BST_RESET \<Rightarrow> Inr (client\<lparr>state := BS_READY\<rparr>)
        | BST_GOODBYE \<Rightarrow> Inr (client\<lparr>state := BS_DEFUNCT\<rparr>)
        | _ \<Rightarrow> Inl AssertionFailed)"

definition bolt_change_streaming_state ::
  "bolt_client_t \<Rightarrow> bolt_structure_type \<Rightarrow> bolt_structure_type \<Rightarrow> error + bolt_client_t" where
  "bolt_change_streaming_state client request_type response_type =
     (if state client \<noteq> BS_STREAMING then Inl AssertionFailed
      else case request_type of
          BST_PULL \<Rightarrow>
            (case response_type of
                BST_SUCCESS \<Rightarrow> Inr (client\<lparr>state := BS_READY\<rparr>)
              | BST_FAILURE \<Rightarrow> Inr (client\<lparr>state := BS_FAILED\<rparr>)
              | _ \<Rightarrow> Inl AssertionFailed)
        | BST_DISCARD \<Rightarrow>
            (case response_type of
                BST_SUCCESS \<Rightarrow> Inr (client\<lparr>state := BS_READY\<rparr>)
              | BST_FAILURE \<Rightarrow> Inr (client\<lparr>state := BS_FAILED\<rparr>)
              | _ \<Rightarrow> Inl AssertionFailed)
        | BST_RESET \<Rightarrow> Inr (client\<lparr>state := BS_READY\<rparr>)
        | BST_GOODBYE \<Rightarrow> Inr (client\<lparr>state := BS_DEFUNCT\<rparr>)
        | _ \<Rightarrow> Inl AssertionFailed)"

definition bolt_change_txready_state ::
  "bolt_client_t \<Rightarrow> bolt_structure_type \<Rightarrow> bolt_structure_type \<Rightarrow> error + bolt_client_t" where
  "bolt_change_txready_state client request_type response_type =
     (if state client \<noteq> BS_TX_READY then Inl AssertionFailed
      else case request_type of
          BST_RUN \<Rightarrow>
            (case response_type of
                BST_SUCCESS \<Rightarrow> Inr (client\<lparr>state := BS_TX_STREAMING\<rparr>)
              | BST_FAILURE \<Rightarrow> Inr (client\<lparr>state := BS_FAILED\<rparr>)
              | _ \<Rightarrow> Inl AssertionFailed)
        | BST_COMMIT \<Rightarrow>
            (case response_type of
                BST_SUCCESS \<Rightarrow> Inr (client\<lparr>state := BS_READY\<rparr>)
              | BST_FAILURE \<Rightarrow> Inr (client\<lparr>state := BS_FAILED\<rparr>)
              | _ \<Rightarrow> Inl AssertionFailed)
        | BST_ROLLBACK \<Rightarrow>
            (case response_type of
                BST_SUCCESS \<Rightarrow> Inr (client\<lparr>state := BS_READY\<rparr>)
              | BST_FAILURE \<Rightarrow> Inr (client\<lparr>state := BS_FAILED\<rparr>)
              | _ \<Rightarrow> Inl AssertionFailed)
        | BST_RESET \<Rightarrow> Inr (client\<lparr>state := BS_READY\<rparr>)
        | BST_GOODBYE \<Rightarrow> Inr (client\<lparr>state := BS_DEFUNCT\<rparr>)
        | _ \<Rightarrow> Inl AssertionFailed)"

definition bolt_change_txstreaming_state ::
  "bolt_client_t \<Rightarrow> bolt_structure_type \<Rightarrow> bolt_structure_type \<Rightarrow> error + bolt_client_t" where
  "bolt_change_txstreaming_state client request_type response_type =
     (if state client \<noteq> BS_TX_STREAMING then Inl AssertionFailed
      else case request_type of
          BST_RUN \<Rightarrow>
            (case response_type of
                BST_SUCCESS \<Rightarrow> Inr (client\<lparr>state := BS_TX_STREAMING\<rparr>)
              | BST_FAILURE \<Rightarrow> Inr (client\<lparr>state := BS_FAILED\<rparr>)
              | _ \<Rightarrow> Inl AssertionFailed)
        | BST_PULL \<Rightarrow>
            (case response_type of
                BST_SUCCESS \<Rightarrow> Inr (client\<lparr>state := BS_TX_STREAMING\<rparr>)
              | BST_FAILURE \<Rightarrow> Inr (client\<lparr>state := BS_FAILED\<rparr>)
              | _ \<Rightarrow> Inl AssertionFailed)
        | BST_COMMIT \<Rightarrow>
            (case response_type of
                BST_SUCCESS \<Rightarrow> Inr (client\<lparr>state := BS_READY\<rparr>)
              | BST_FAILURE \<Rightarrow> Inr (client\<lparr>state := BS_FAILED\<rparr>)
              | _ \<Rightarrow> Inl AssertionFailed)
        | BST_DISCARD \<Rightarrow>
            (case response_type of
                BST_SUCCESS \<Rightarrow> Inr (client\<lparr>state := BS_TX_READY\<rparr>)
              | BST_FAILURE \<Rightarrow> Inr (client\<lparr>state := BS_FAILED\<rparr>)
              | _ \<Rightarrow> Inl AssertionFailed)
        | BST_RESET \<Rightarrow> Inr (client\<lparr>state := BS_READY\<rparr>)
        | BST_GOODBYE \<Rightarrow> Inr (client\<lparr>state := BS_DEFUNCT\<rparr>)
        | _ \<Rightarrow> Inl AssertionFailed)"

definition bolt_change_failed_state ::
  "bolt_client_t \<Rightarrow> bolt_structure_type \<Rightarrow> bolt_structure_type \<Rightarrow> error + bolt_client_t" where
  "bolt_change_failed_state client request_type response_type =
     (if state client \<noteq> BS_FAILED then Inl AssertionFailed
      else case request_type of
          BST_RUN \<Rightarrow>
            (case response_type of
                BST_IGNORED \<Rightarrow> Inr (client\<lparr>state := BS_FAILED\<rparr>)
              | _ \<Rightarrow> Inl AssertionFailed)
        | BST_PULL \<Rightarrow>
            (case response_type of
                BST_IGNORED \<Rightarrow> Inr (client\<lparr>state := BS_FAILED\<rparr>)
              | _ \<Rightarrow> Inl AssertionFailed)
        | BST_DISCARD \<Rightarrow>
            (case response_type of
                BST_IGNORED \<Rightarrow> Inr (client\<lparr>state := BS_FAILED\<rparr>)
              | _ \<Rightarrow> Inl AssertionFailed)
        | BST_RESET \<Rightarrow> Inr (client\<lparr>state := BS_READY\<rparr>)
        | BST_GOODBYE \<Rightarrow> Inr (client\<lparr>state := BS_DEFUNCT\<rparr>)
        | _ \<Rightarrow> Inl AssertionFailed)"

definition bolt_change_interrupted_state ::
  "bolt_client_t \<Rightarrow> bolt_structure_type \<Rightarrow> bolt_structure_type \<Rightarrow> error + bolt_client_t" where
  "bolt_change_interrupted_state client request_type response_type =
     (if state client \<noteq> BS_INTERRUPTED then Inl AssertionFailed
      else case request_type of
          BST_RUN \<Rightarrow>
            (case response_type of
                BST_IGNORED \<Rightarrow> Inr (client\<lparr>state := BS_FAILED\<rparr>)
              | _ \<Rightarrow> Inl AssertionFailed)
        | BST_PULL \<Rightarrow>
            (case response_type of
                BST_IGNORED \<Rightarrow> Inr (client\<lparr>state := BS_FAILED\<rparr>)
              | _ \<Rightarrow> Inl AssertionFailed)
        | BST_DISCARD \<Rightarrow>
            (case response_type of
                BST_IGNORED \<Rightarrow> Inr (client\<lparr>state := BS_FAILED\<rparr>)
              | _ \<Rightarrow> Inl AssertionFailed)
        | BST_BEGIN \<Rightarrow>
            (case response_type of
                BST_IGNORED \<Rightarrow> Inr (client\<lparr>state := BS_FAILED\<rparr>)
              | _ \<Rightarrow> Inl AssertionFailed)
        | BST_COMMIT \<Rightarrow>
            (case response_type of
                BST_IGNORED \<Rightarrow> Inr (client\<lparr>state := BS_FAILED\<rparr>)
              | _ \<Rightarrow> Inl AssertionFailed)
        | BST_ROLLBACK \<Rightarrow>
            (case response_type of
                BST_IGNORED \<Rightarrow> Inr (client\<lparr>state := BS_FAILED\<rparr>)
              | _ \<Rightarrow> Inl AssertionFailed)
        | BST_RESET \<Rightarrow>
            (case response_type of
                BST_SUCCESS \<Rightarrow> Inr (client\<lparr>state := BS_READY\<rparr>)
              | BST_FAILURE \<Rightarrow> Inr (client\<lparr>state := BS_DEFUNCT\<rparr>)
              | _ \<Rightarrow> Inl AssertionFailed)
        | BST_GOODBYE \<Rightarrow> Inr (client\<lparr>state := BS_DEFUNCT\<rparr>)
        | _ \<Rightarrow> Inl AssertionFailed)"

definition bolt_change_client_state ::
  "bolt_client_t \<Rightarrow> bolt_structure_type \<Rightarrow> bolt_structure_type \<Rightarrow> error + bolt_client_t" where
  "bolt_change_client_state client request_type response_type =
     (if response_type = BST_RECORD then Inr client
      else case state client of
          BS_NEGOTIATION \<Rightarrow> bolt_change_negotiation_state client request_type response_type
        | BS_AUTHENTICATION \<Rightarrow> bolt_change_authentication_state client request_type response_type
        | BS_READY \<Rightarrow> bolt_change_ready_state client request_type response_type
        | BS_STREAMING \<Rightarrow> bolt_change_streaming_state client request_type response_type
        | BS_TX_READY \<Rightarrow> bolt_change_txready_state client request_type response_type
        | BS_TX_STREAMING \<Rightarrow> bolt_change_txstreaming_state client request_type response_type
        | BS_FAILED \<Rightarrow> bolt_change_failed_state client request_type response_type
        | BS_INTERRUPTED \<Rightarrow> bolt_change_interrupted_state client request_type response_type
        | _ \<Rightarrow> Inl AssertionFailed)"

lemmas bolt_change_defs =
  bolt_change_client_state_def bolt_change_negotiation_state_def
  bolt_change_authentication_state_def bolt_change_ready_state_def
  bolt_change_streaming_state_def bolt_change_txready_state_def
  bolt_change_txstreaming_state_def bolt_change_failed_state_def
  bolt_change_interrupted_state_def

section \<open>Replies, framing and sending\<close>

definition bolt_client_reply_for ::
  "packstream_t \<Rightarrow> bolt_client_t \<Rightarrow> bolt_structure_type \<Rightarrow> bolt_structure_type \<Rightarrow> uint32_t \<Rightarrow>
   error + bolt_client_t" where
  "bolt_client_reply_for codec client request_type response_type size' =
     seq (bolt_reply_structure codec client response_type size') (\<lambda>client1.
       bolt_change_client_state client1 request_type response_type)"

definition bolt_client_end_message :: "bolt_client_t \<Rightarrow> error + bolt_client_t" where
  "bolt_client_end_message client =
     (let n = buffer_index_diff (write' (write_buf client)) (client_write client) - 2 in
      seq (if ws client then
             seq (client_write_write client (le_bytes 1 (0x82 :: uint8_t))) (\<lambda>client1.
             seq (client_write_write client1 (le_bytes 1 (ucast (n + 2) :: uint8_t))) (\<lambda>client2.
               Inr (client2, n - 2)))
           else Inr (client, n)) (\<lambda>(client2, n).
      seq (client_write_write client2 (le_bytes 2 (htons n))) (\<lambda>client3.
      seq (write_buf_write client3 (le_bytes 1 (0x00 :: uint8_t))) (\<lambda>client4.
      seq (write_buf_write client4 (le_bytes 1 (0x00 :: uint8_t))) (\<lambda>client5.
      seq (write_buf_write (client5\<lparr>client_write := write' (write_buf client5)\<rparr>)
             (le_bytes 2 (0x0000 :: uint16_t))) (\<lambda>client6.
        if ws client6 then write_buf_write client6 (le_bytes 2 (0x0000 :: uint16_t))
        else Inr client6))))))"

text \<open>
  \<^verbatim>\<open>bolt_client_send\<close>. Three groups of statements recur in its reset branch:
  \<open>reset_cursors\<close> is the pair of \<^verbatim>\<open>buffer_index\<close> calls that puts
  \<^verbatim>\<open>client->write\<close> at 0 and \<^verbatim>\<open>client->write_buf.write\<close> at 2, and
  \<open>close_and_send\<close> backfills the chunk length, appends the two zero bytes and
  writes the buffer up to its write cursor to the socket (the result of
  \<^verbatim>\<open>buffer_socket_write\<close> is not looked at).
\<close>

definition reset_cursors :: "bolt_client_t \<Rightarrow> error + bolt_client_t" where
  "reset_cursors client =
     seq (buffer_index (write_buf client) 0) (\<lambda>w.
     seq (buffer_index (write_buf client) 2) (\<lambda>bw.
       Inr (client\<lparr>client_write := w, write_buf := (write_buf client)\<lparr>write' := bw\<rparr>\<rparr>)))"

definition close_and_send :: "bolt_client_t \<Rightarrow> error + bolt_client_t" where
  "close_and_send client =
     (let n = buffer_index_diff (write' (write_buf client)) (client_write client) - 2 in
      seq (client_write_write client (le_bytes 2 (htons n))) (\<lambda>client1.
      seq (write_buf_write client1 (le_bytes 1 (0x00 :: uint8_t))) (\<lambda>client2.
      seq (write_buf_write client2 (le_bytes 1 (0x00 :: uint8_t))) (\<lambda>client3.
      seq (buffer_socket_write (chunks (write_buf client3)) (write' (write_buf client3))
             (socket client3)) (\<lambda>(ok, sock1).
        Inr (client3\<lparr>socket := sock1\<rparr>))))))"

definition bolt_client_send :: "packstream_t \<Rightarrow> bolt_client_t \<Rightarrow> error + bolt_client_t" where
  "bolt_client_send codec client =
     (if reset client then
        seq (reset_cursors client) (\<lambda>client1.
        if state client1 \<noteq> BS_FAILED then
          seq (bolt_reply_structure codec client1 BST_SUCCESS 1) (\<lambda>client2.
          seq (bolt_reply_map codec client2 0) (\<lambda>client3.
          seq (close_and_send client3) (\<lambda>client4.
          seq (reset_cursors client4) (\<lambda>client5.
            Inr (client5\<lparr>reset := False\<rparr>)))))
        else
          seq (bolt_reply_structure codec client1 BST_IGNORED 0) (\<lambda>client2.
          seq (close_and_send client2) (\<lambda>client3.
          seq (reset_cursors client3) (\<lambda>client4.
          seq (bolt_reply_structure codec client4 BST_SUCCESS 1) (\<lambda>client5.
          seq (bolt_reply_map codec client5 0) (\<lambda>client6.
          seq (close_and_send client6) (\<lambda>client7.
          seq (reset_cursors client7) (\<lambda>client8.
            Inr (client8\<lparr>reset := False, state := BS_READY\<rparr>)))))))))
      else
        seq (buffer_socket_write (chunks (write_buf client)) (client_write client)
               (socket client)) (\<lambda>(ok, sock1).
        seq (buffer_index (write_buf client) 0) (\<lambda>w.
        seq (buffer_index (write_buf client) 0) (\<lambda>bw.
        seq (write_buf_write
               (client\<lparr>socket := sock1, client_write := w,
                       write_buf := (write_buf client)\<lparr>write' := bw\<rparr>\<rparr>)
               (le_bytes 2 (0x0000 :: uint16_t))) (\<lambda>client1.
          if ws client1 then write_buf_write client1 (le_bytes 2 (0x0000 :: uint16_t))
          else Inr client1)))))"

section \<open>The transition table of the specification\<close>

text \<open>
  Section 4.4 of the spec, row by row: the state, the request, the response (or \<open>*\<close>,
  any response) and the next state. A row with \<open>A|B\<close> is one row for each.
\<close>

datatype response_pattern = Response bolt_structure_type | AnyResponse

definition spec_transition_table ::
  "(bolt_state \<times> bolt_structure_type \<times> response_pattern \<times> bolt_state) list" where
  "spec_transition_table =
    [(BS_NEGOTIATION, BST_HELLO, Response BST_SUCCESS, BS_AUTHENTICATION),
     (BS_NEGOTIATION, BST_HELLO, Response BST_FAILURE, BS_DEFUNCT),
     (BS_AUTHENTICATION, BST_LOGON, Response BST_SUCCESS, BS_READY),
     (BS_AUTHENTICATION, BST_LOGON, Response BST_FAILURE, BS_DEFUNCT),
     (BS_READY, BST_LOGOFF, Response BST_SUCCESS, BS_AUTHENTICATION),
     (BS_READY, BST_LOGOFF, Response BST_FAILURE, BS_FAILED),
     (BS_READY, BST_RUN, Response BST_SUCCESS, BS_STREAMING),
     (BS_READY, BST_RUN, Response BST_FAILURE, BS_FAILED),
     (BS_READY, BST_BEGIN, Response BST_SUCCESS, BS_TX_READY),
     (BS_READY, BST_BEGIN, Response BST_FAILURE, BS_FAILED),
     (BS_READY, BST_ROUTE, Response BST_SUCCESS, BS_READY),
     (BS_READY, BST_RESET, AnyResponse, BS_READY),
     (BS_READY, BST_GOODBYE, AnyResponse, BS_DEFUNCT),
     (BS_STREAMING, BST_PULL, Response BST_SUCCESS, BS_READY),
     (BS_STREAMING, BST_DISCARD, Response BST_SUCCESS, BS_READY),
     (BS_STREAMING, BST_PULL, Response BST_FAILURE, BS_FAILED),
     (BS_STREAMING, BST_DISCARD, Response BST_FAILURE, BS_FAILED),
     (BS_STREAMING, BST_RESET, AnyResponse, BS_READY),
     (BS_STREAMING, BST_GOODBYE, AnyResponse, BS_DEFUNCT),
     (BS_TX_READY, BST_RUN, Response BST_SUCCESS, BS_TX_STREAMING),
     (BS_TX_READY, BST_RUN, Response BST_FAILURE, BS_FAILED),
     (BS_TX_READY, BST_COMMIT, Response BST_SUCCESS, BS_READY),
     (BS_TX_READY, BST_ROLLBACK, Response BST_SUCCESS, BS_READY),
     (BS_TX_READY, BST_COMMIT, Response BST_FAILURE, BS_FAILED),
     (BS_TX_READY, BST_ROLLBACK, Response BST_FAILURE, BS_FAILED),
     (BS_TX_READY, BST_RESET, AnyResponse, BS_READY),
     (BS_TX_READY, BST_GOODBYE, AnyResponse, BS_DEFUNCT),
     (BS_TX_STREAMING, BST_RUN, Response BST_SUCCESS, BS_TX_STREAMING),
     (BS_TX_STREAMING, BST_RUN, Response BST_FAILURE, BS_FAILED),
     (BS_TX_STREAMING, BST_PULL, Response BST_SUCCESS, BS_TX_STREAMING),
     (BS_TX_STREAMING, BST_PULL, Response BST_FAILURE, BS_FAILED),
     (BS_TX_STREAMING, BST_DISCARD, Response BST_SUCCESS, BS_TX_READY),
     (BS_TX_STREAMING, BST_DISCARD, Response BST_FAILURE, BS_FAILED),
     (BS_TX_STREAMING, BST_COMMIT, Response BST_SUCCESS, BS_READY),
     (BS_TX_STREAMING, BST_COMMIT, Response BST_FAILURE, BS_FAILED),
     (BS_TX_STREAMING, BST_RESET, AnyResponse, BS_READY),
     (BS_TX_STREAMING, BST_GOODBYE, AnyResponse, BS_DEFUNCT),
     (BS_FAILED, BST_RUN, Response BST_IGNORED, BS_FAILED),
     (BS_FAILED, BST_PULL, Response BST_IGNORED, BS_FAILED),
     (BS_FAILED, BST_DISCARD, Response BST_IGNORED, BS_FAILED),
     (BS_FAILED, BST_RESET, AnyResponse, BS_READY),
     (BS_FAILED, BST_GOODBYE, AnyResponse, BS_DEFUNCT),
     (BS_INTERRUPTED, BST_RUN, Response BST_IGNORED, BS_FAILED),
     (BS_INTERRUPTED, BST_PULL, Response BST_IGNORED, BS_FAILED),
     (BS_INTERRUPTED, BST_DISCARD, Response BST_IGNORED, BS_FAILED),
     (BS_INTERRUPTED, BST_BEGIN, Response BST_IGNORED, BS_FAILED),
     (BS_INTERRUPTED, BST_COMMIT, Response BST_IGNORED, BS_FAILED),
     (BS_INTERRUPTED, BST_ROLLBACK, Response BST_IGNORED, BS_FAILED),
     (BS_INTERRUPTED, BST_RESET, Response BST_SUCCESS, BS_READY),
     (BS_INTERRUPTED, BST_RESET, Response BST_FAILURE, BS_DEFUNCT),
     (BS_INTERRUPTED, BST_GOODBYE, AnyResponse, BS_DEFUNCT)]"

fun row_matches ::
  "bolt_state \<Rightarrow> bolt_structure_type \<Rightarrow> bolt_structure_type \<Rightarrow>
   bolt_state \<times> bolt_structure_type \<times> response_pattern \<times> bolt_state \<Rightarrow> bool" where
  "row_matches s rq rs (from, request, AnyResponse, next) \<longleftrightarrow> s = from \<and> rq = request"
| "row_matches s rq rs (from, request, Response r, next) \<longleftrightarrow> s = from \<and> rq = request \<and> rs = r"

definition spec_transition ::
  "bolt_state \<Rightarrow> bolt_structure_type \<Rightarrow> bolt_structure_type \<Rightarrow> bolt_state option" where
  "spec_transition s rq rs =
     map_option (\<lambda>(from, request, response, next). next)
       (find (row_matches s rq rs) spec_transition_table)"


section \<open>A session to run the functions on\<close>

text \<open>
  \<open>example_client\<close> is the session that \<^verbatim>\<open>bolt_client_new\<close> returns for an open
  socket (lemma \<open>bolt_client_new_example\<close> below).
\<close>

definition example_socket :: socket_t where
  "example_socket =
     \<lparr>fd = 7, inbound = [], inbound_end = SOCKET_EOF, outbound = [], write_fails = False\<rparr>"

definition example_client :: bolt_client_t where
  "example_client =
     \<lparr>socket = example_socket, state = BS_NEGOTIATION, ctx = 1, on_write = 1,
      ws = False, reset = False, processing = False, shutdown = False,
      read_buf = \<lparr>chunks = [rm_malloc_chunk], read = \<lparr>chunk = 0, offset = 0\<rparr>,
                  write' = \<lparr>chunk = 0, offset = 0\<rparr>\<rparr>,
      msg_buf = \<lparr>chunks = [rm_malloc_chunk], read = \<lparr>chunk = 0, offset = 0\<rparr>,
                 write' = \<lparr>chunk = 0, offset = 0\<rparr>\<rparr>,
      write_buf = \<lparr>chunks = [rm_malloc_chunk], read = \<lparr>chunk = 0, offset = 0\<rparr>,
                   write' = \<lparr>chunk = 0, offset = 2\<rparr>\<rparr>,
      client_write = \<lparr>chunk = 0, offset = 0\<rparr>\<rparr>"


text \<open>
  Inputs for the claims about sockets and framing: a socket whose peer has sent exactly
  one chunk of bytes and then closed, a fresh buffer, a WebSocket session whose current
  message holds 252 payload bytes after the four reserved bytes, and a PackStream codec
  with the header bytes of Bolt (structure marker \<open>0xB0 + n\<close>, tags \<open>0x70\<close> for
  \<^verbatim>\<open>SUCCESS\<close> and \<open>0x7E\<close> for \<^verbatim>\<open>IGNORED\<close>, map marker \<open>0xA0 + n\<close>).
\<close>

definition full_chunk_then_eof :: socket_t where
  "full_chunk_then_eof =
     \<lparr>fd = 7, inbound = replicate 4096 1, inbound_end = SOCKET_EOF, outbound = [],
      write_fails = False\<rparr>"

definition empty_buffer :: buffer_t where
  "empty_buffer = \<lparr>chunks = [rm_malloc_chunk], read = \<lparr>chunk = 0, offset = 0\<rparr>,
                    write' = \<lparr>chunk = 0, offset = 0\<rparr>\<rparr>"

definition ws_client_252 :: bolt_client_t where
  "ws_client_252 =
     example_client\<lparr>ws := True,
       write_buf := \<lparr>chunks = [rm_malloc_chunk], read = \<lparr>chunk = 0, offset = 0\<rparr>,
                     write' = \<lparr>chunk = 0, offset = 256\<rparr>\<rparr>\<rparr>"

definition example_codec :: packstream_t where
  "example_codec =
     \<lparr>structure_header = (\<lambda>t n. [0xB0 + ucast n, if t = BST_IGNORED then 0x7E else 0x70]),
      map_header = (\<lambda>n. [0xA0 + ucast n])\<rparr>"

text \<open>
  Inputs for the claims about typed reads and the bulk copy: a buffer with both cursors
  two bytes before the end of its chunk, a buffer of 17 chunks whose write cursor is
  65536 bytes after the start, and a source buffer of two chunks with different bytes.
\<close>

definition buffer_at_4094 :: buffer_t where
  "buffer_at_4094 = \<lparr>chunks = [rm_malloc_chunk], read = \<lparr>chunk = 0, offset = 4094\<rparr>,
                      write' = \<lparr>chunk = 0, offset = 4094\<rparr>\<rparr>"

definition buffer_64k :: buffer_t where
  "buffer_64k = \<lparr>chunks = replicate 17 rm_malloc_chunk, read = \<lparr>chunk = 0, offset = 0\<rparr>,
                   write' = \<lparr>chunk = 16, offset = 0\<rparr>\<rparr>"

definition two_chunk_buffer :: buffer_t where
  "two_chunk_buffer = \<lparr>chunks = [replicate 4096 7, replicate 4096 9],
                         read = \<lparr>chunk = 0, offset = 4090\<rparr>,
                         write' = \<lparr>chunk = 1, offset = 100\<rparr>\<rparr>"

section \<open>Buffers as byte sequences\<close>

text \<open>
  The bytes of a buffer in chunk-major order are the concatenation of its chunks;
  \<open>bytes_at chs index n\<close> are the \<open>n\<close> bytes from the position of a cursor on.
  \<open>chunks_ok\<close> says that every chunk has the chunk size and that the chunk numbers fit
  an \<^verbatim>\<open>int32_t\<close>. \<open>copy_pre\<close> and \<open>copy_post\<close> are the invariant of the loop of
  \<^verbatim>\<open>buffer_read\<close>: what a state of the loop must satisfy, and what the loop then
  returns.
\<close>

definition chunks_ok :: "uint8_t list list \<Rightarrow> bool" where
  "chunks_ok chs \<longleftrightarrow> (\<forall>ch \<in> set chs. length ch = 4096) \<and> length chs < 2 ^ 31"

definition bytes_at :: "uint8_t list list \<Rightarrow> buffer_index_t \<Rightarrow> nat \<Rightarrow> uint8_t list" where
  "bytes_at chs index n = take n (drop (index_position index) (concat chs))"

definition copy_pre ::
  "uint8_t list list \<Rightarrow> buffer_index_t \<Rightarrow> uint8_t list list \<Rightarrow> buffer_index_t \<Rightarrow> uint32_t \<Rightarrow> bool" where
  "copy_pre schs buf dchs dst size' \<longleftrightarrow>
     chunks_ok schs \<and> chunks_ok dchs \<and>
     unat (offset buf) \<le> 4096 \<and> unat (offset dst) \<le> 4096 \<and>
     unat (chunk dst) < length dchs \<and>
     index_position buf + unat size' \<le> 4096 * length schs \<and>
     length dchs + (unat (offset dst) + unat size') div 4096 < 2 ^ 31"

definition copy_post ::
  "uint8_t list list \<Rightarrow> buffer_index_t \<Rightarrow> uint8_t list list \<Rightarrow> buffer_index_t \<Rightarrow> uint32_t \<Rightarrow>
   buffer_index_t \<times> uint8_t list list \<times> buffer_index_t \<Rightarrow> bool" where
  "copy_post schs buf dchs dst size' r \<longleftrightarrow>
     (case r of (buf', dchs', dst') \<Rightarrow>
        chunks_ok dchs' \<and> length dchs \<le> length dchs' \<and>
        bytes_at dchs' dst (unat size') = bytes_at schs buf (unat size') \<and>
        length (bytes_at schs buf (unat size')) = unat size' \<and>
        take (index_position dst) (concat dchs') = take (index_position dst) (concat dchs) \<and>
        index_position buf' = index_position buf + unat size' \<and>
        index_position dst' = index_position dst + unat size')"

section \<open>Messages on the wire\<close>

text \<open>
  Section 6 of the spec: a Bolt message as this layer emits it is one chunk, the length
  of the payload as a 16-bit big-endian number and the payload, followed by the
  terminator \<open>0x0000\<close>. \<open>write_buf_ok\<close> says that the outbound buffer has its first
  chunk; \<open>composed client p\<close> says that the session is composing a message at the
  start of that chunk: two bytes reserved for the length, then the payload \<open>p\<close> up to the
  write cursor.
\<close>

definition bolt_message :: "uint8_t list \<Rightarrow> uint8_t list" where
  "bolt_message payload =
     (let n = (of_nat (length payload) :: uint16_t) in
      [ucast (drop_bit 8 n), ucast n] @ payload @ [0, 0])"

definition write_buf_ok :: "bolt_client_t \<Rightarrow> bool" where
  "write_buf_ok client \<longleftrightarrow>
     chunks (write_buf client) \<noteq> [] \<and> length (chunks (write_buf client) ! 0) = 4096 \<and>
     length (chunks (write_buf client)) < 2 ^ 20"

definition composed :: "bolt_client_t \<Rightarrow> uint8_t list \<Rightarrow> bool" where
  "composed client p \<longleftrightarrow>
     write_buf_ok client \<and> client_write client = \<lparr>chunk = 0, offset = 0\<rparr> \<and>
     chunk (write' (write_buf client)) = 0 \<and>
     unat (offset (write' (write_buf client))) = 2 + length p \<and>
     take (length p) (drop 2 (chunks (write_buf client) ! 0)) = p"

section \<open>Basic facts\<close>

lemma unat_BUFFER_CHUNK_SIZE: "unat BUFFER_CHUNK_SIZE = 4096"
  by (simp add: BUFFER_CHUNK_SIZE_def)

lemma length_rm_malloc_chunk: "length rm_malloc_chunk = 4096"
  by (simp add: rm_malloc_chunk_def unat_BUFFER_CHUNK_SIZE)

lemma zeros2: "[0, 0] @ drop 2 rm_malloc_chunk = rm_malloc_chunk"
proof -
  have "replicate 4096 (0::uint8_t) = replicate 2 0 @ replicate 4094 0"
    unfolding replicate_add[symmetric] by simp
  moreover have "replicate 2 (0::uint8_t) = [0, 0]"
    by (simp add: numeral_2_eq_2)
  ultimately show ?thesis by (simp add: rm_malloc_chunk_def unat_BUFFER_CHUNK_SIZE)
qed

lemma zeros2': "0 # 0 # drop (Suc (Suc 0)) rm_malloc_chunk = rm_malloc_chunk"
  using zeros2 by (simp add: numeral_2_eq_2)


lemma buffer_new_eq:
  "buffer_new = Inr \<lparr>chunks = [rm_malloc_chunk], read = \<lparr>chunk = 0, offset = 0\<rparr>,
                  write' = \<lparr>chunk = 0, offset = 0\<rparr>\<rparr>"
  by (simp add: buffer_new_def buffer_index_def seq_def array_len_def BUFFER_CHUNK_SIZE_def)

lemma le_bytes_2: "le_bytes 2 v = [ucast v, ucast (drop_bit 8 v)]"
  by (simp add: le_bytes_def numeral_2_eq_2)

lemma write2: "buffer_write [rm_malloc_chunk] \<lparr>chunk = 0, offset = 0\<rparr> [0, 0]
                = Inr ([rm_malloc_chunk], \<lparr>chunk = 0, offset = 2\<rparr>)"
  apply (subst buffer_write.simps)
  apply (simp add: Let_def seq_def chunk_store_def chunk_valid_def buffer_index_add_def
       unat_BUFFER_CHUNK_SIZE length_rm_malloc_chunk zeros2')
  apply (simp add: BUFFER_CHUNK_SIZE_def)
  done

lemma bolt_client_new_example: "bolt_client_new example_socket 1 1 = Inr example_client"
  by (simp add: bolt_client_new_def buffer_new_eq seq_def write_buf_write_def
        buffer_index_def array_len_def le_bytes_2 htons_def write2 example_client_def
        example_socket_def BUFFER_CHUNK_SIZE_def)

section \<open>Cursor arithmetic\<close>

lemma sint_of_small: "unat (w :: uint32_t) < 2 ^ 31 \<Longrightarrow> sint w = uint w"
proof -
  assume a: "unat w < 2 ^ 31"
  then have "int (unat w) < int (2 ^ 31)" by (simp only: of_nat_less_iff)
  then have a': "uint w < 2 ^ 31" by simp
  have "sint w = signed_take_bit 31 (uint w)" by (simp add: sint_uint)
  also have "\<dots> = uint w"
  proof (rule signed_take_bit_int_eq_self)
    show "- (2 ^ 31) \<le> uint w" by (rule order_trans [of _ 0]) simp_all
    show "uint w < 2 ^ 31" by (rule a')
  qed
  finally show ?thesis .
qed

lemma sint_nonneg_small: "0 \<le> sint (w :: uint32_t) \<Longrightarrow> unat w < 2 ^ 31"
proof (rule ccontr)
  assume nn: "0 \<le> sint w" and "\<not> unat w < 2 ^ 31"
  then have "int (2 ^ 31) \<le> int (unat w)" by (simp only: of_nat_le_iff not_less)
  then have big: "2 ^ 31 \<le> uint w" by simp
  have "sint w = signed_take_bit 31 (uint w)" by (simp add: sint_uint)
  also have "\<dots> \<le> uint w - 2 ^ Suc 31" using big by (rule signed_take_bit_int_less_eq)
  also have "\<dots> < 0" using uint_lt2p [of w] by simp
  finally show False using nn by simp
qed

lemma nat_sint_small: "unat (w :: uint32_t) < 2 ^ 31 \<Longrightarrow> nat (sint w) = unat w"
  by (simp only: sint_of_small unat_eq_nat_uint)

lemma sint_nonneg_unat: "0 \<le> sint (w :: uint32_t) \<Longrightarrow> nat (sint w) = unat w"
  by (rule nat_sint_small) (rule sint_nonneg_small)

lemma of_nat_index_position:
  "(of_nat (index_position index) :: uint32_t) = chunk index * BUFFER_CHUNK_SIZE + offset index"
  by (simp add: index_position_def)

lemma diff32:
  assumes "index_position b \<le> index_position a"
  shows "(chunk a - chunk b) * BUFFER_CHUNK_SIZE + (offset a - offset b) =
        (of_nat (index_position a - index_position b) :: uint32_t)"
proof -
  have "(chunk a - chunk b) * BUFFER_CHUNK_SIZE + (offset a - offset b) =
        (chunk a * BUFFER_CHUNK_SIZE + offset a) - (chunk b * BUFFER_CHUNK_SIZE + offset b)"
    by (simp only: left_diff_distrib) simp
  also have "\<dots> = of_nat (index_position a) - of_nat (index_position b)"
    by (simp only: of_nat_index_position)
  also have "\<dots> = of_nat (index_position a - index_position b)"
    using assms by (simp only: of_nat_diff)
  finally show ?thesis .
qed

lemma ucast_of_nat_16: "n < 65536 \<Longrightarrow> unat (ucast (of_nat n :: uint32_t) :: uint16_t) = n"
  by (simp add: unsigned_ucast_eq unsigned_of_nat take_bit_nat_eq_self)

lemma index_before_position:
  assumes "index_ok a" "index_ok b" "index_before b a"
  shows "index_position b \<le> index_position a"
proof -
  have oa: "unat (offset a) \<le> 4096" and ob: "unat (offset b) \<le> 4096"
    using assms by (simp_all add: index_ok_def word_le_nat_alt unat_BUFFER_CHUNK_SIZE)
  have ca: "sint (chunk a) = uint (chunk a)" and cb: "sint (chunk b) = uint (chunk b)"
    using assms by (auto simp only: index_ok_def intro!: sint_of_small sint_nonneg_small)
  from assms(3) have "uint (chunk b) < uint (chunk a) \<or>
      chunk b = chunk a \<and> offset b \<le> offset a"
    unfolding index_before_def ca cb .
  then consider "unat (chunk b) < unat (chunk a)"
    | "chunk b = chunk a" "unat (offset b) \<le> unat (offset a)"
    by (auto simp only: word_le_nat_alt word_less_def[symmetric] word_less_nat_alt)
  then show ?thesis
  proof cases
    case 1
    then have "unat (chunk b) * 4096 + 4096 \<le> unat (chunk a) * 4096" by simp
    with ob show ?thesis by (simp add: index_position_def unat_BUFFER_CHUNK_SIZE)
  next
    case 2
    then show ?thesis by (simp add: index_position_def)
  qed
qed

text \<open>
  Claim C8. For two cursors \<open>a\<close> and \<open>b\<close> of a buffer, \<open>a\<close> at or after \<open>b\<close> in
  chunk-major order and less than 65536 bytes apart, \<^verbatim>\<open>buffer_index_diff(a, b)\<close> is
  exactly the distance in bytes, whether or not the offset of \<open>a\<close> is smaller than
  that of \<open>b\<close>.
\<close>

theorem buffer_index_diff_distance:
  assumes "index_ok a" and "index_ok b" and "index_before b a"
    and "index_position a - index_position b < 65536"
  shows "unat (buffer_index_diff a b) = index_position a - index_position b"
  unfolding buffer_index_diff_def
  using assms by (simp only: diff32[OF index_before_position] ucast_of_nat_16)


theorem buffer_index_diff_distance_witness:
  "index_ok \<lparr>chunk = 2, offset = 5\<rparr> \<and> index_ok \<lparr>chunk = 1, offset = 4000\<rparr> \<and>
   index_before \<lparr>chunk = 1, offset = 4000\<rparr> \<lparr>chunk = 2, offset = 5\<rparr> \<and>
   index_position \<lparr>chunk = 2, offset = 5\<rparr> - index_position \<lparr>chunk = 1, offset = 4000\<rparr> < 65536 \<and>
   unat (buffer_index_diff \<lparr>chunk = 2, offset = 5\<rparr> \<lparr>chunk = 1, offset = 4000\<rparr>) = 101"
proof -
  have h: "index_ok \<lparr>chunk = 2, offset = 5\<rparr>" "index_ok \<lparr>chunk = 1, offset = 4000\<rparr>"
    "index_before \<lparr>chunk = 1, offset = 4000\<rparr> \<lparr>chunk = 2, offset = 5\<rparr>"
    "index_position \<lparr>chunk = 2, offset = 5\<rparr> - index_position \<lparr>chunk = 1, offset = 4000\<rparr> < 65536"
    by (simp_all add: index_ok_def index_before_def index_position_def BUFFER_CHUNK_SIZE_def)
  show ?thesis
    using h buffer_index_diff_distance [OF h]
    by (simp add: index_position_def BUFFER_CHUNK_SIZE_def)
qed

lemma unat_offset_le: "offset index \<le> BUFFER_CHUNK_SIZE \<Longrightarrow> unat (offset index) \<le> 4096"
  by (simp add: word_le_nat_alt unat_BUFFER_CHUNK_SIZE)

text \<open>
  Claim C4, as amended. For a cursor with an offset of at most the chunk size, and as
  long as the 32-bit offset and the chunk number do not overflow,
  \<^verbatim>\<open>buffer_index_add\<close> gives a cursor that denotes the position \<open>p + n\<close>. It is the
  normalised cursor (chunk \<open>(p + n) div 4096\<close>, offset \<open>(p + n) mod 4096\<close>) unless
  the old offset plus \<open>n\<close> is exactly the chunk size: then the cursor stays in its
  chunk with the offset equal to the chunk size.
\<close>

theorem buffer_index_add_position:
  assumes "offset index \<le> BUFFER_CHUNK_SIZE"
    and "unat (offset index) + unat off < 2 ^ 32"
    and "(index_position index + unat off) div 4096 < 2 ^ 31"
  shows "buffer_index_add index off =
           (if unat (offset index) + unat off = 4096 then index\<lparr>offset := BUFFER_CHUNK_SIZE\<rparr>
            else index\<lparr>chunk := of_nat ((index_position index + unat off) div 4096),
                       offset := of_nat ((index_position index + unat off) mod 4096)\<rparr>) \<and>
         index_position (buffer_index_add index off) = index_position index + unat off"
proof -
  let ?o = "unat (offset index)" and ?n = "unat off" and ?c = "unat (chunk index)"
  have o: "?o \<le> 4096" using assms(1) by (rule unat_offset_le)
  have sum: "unat (offset index + off) = ?o + ?n"
    using assms(2) by (simp add: unat_add_lem [THEN iffD1])
  have P: "index_position index + ?n = ?c * 4096 + (?o + ?n)"
    by (simp add: index_position_def unat_BUFFER_CHUNK_SIZE)
  have gt: "offset index + off > BUFFER_CHUNK_SIZE \<longleftrightarrow> ?o + ?n > 4096"
    by (simp add: word_less_nat_alt sum unat_BUFFER_CHUNK_SIZE)
  have Pdiv: "(index_position index + ?n) div 4096 = ?c + (?o + ?n) div 4096"
    and Pmod: "(index_position index + ?n) mod 4096 = (?o + ?n) mod 4096"
    unfolding P by simp_all
  have cbound: "?c + (?o + ?n) div 4096 < 2 ^ 32"
    using assms(3) unfolding Pdiv by simp
  consider "?o + ?n > 4096" | "?o + ?n = 4096" | "?o + ?n < 4096" by linarith
  then show ?thesis
  proof cases
    case 1
    have d: "unat ((offset index + off) div BUFFER_CHUNK_SIZE) = (?o + ?n) div 4096"
      by (simp add: unat_div sum unat_BUFFER_CHUNK_SIZE)
    have m: "unat ((offset index + off) mod BUFFER_CHUNK_SIZE) = (?o + ?n) mod 4096"
      by (simp add: unat_mod sum unat_BUFFER_CHUNK_SIZE)
    have c': "unat (chunk index + (offset index + off) div BUFFER_CHUNK_SIZE) = ?c + (?o + ?n) div 4096"
      using cbound d by (simp add: unat_add_lem [THEN iffD1])
    have r: "buffer_index_add index off =
        index\<lparr>chunk := chunk index + (offset index + off) div BUFFER_CHUNK_SIZE,
              offset := (offset index + off) mod BUFFER_CHUNK_SIZE\<rparr>"
      using 1 gt by (simp add: buffer_index_add_def Let_def)
    have e1: "chunk index + (offset index + off) div BUFFER_CHUNK_SIZE =
              of_nat ((index_position index + ?n) div 4096)"
      unfolding Pdiv c'[symmetric] by simp
    have e2: "(offset index + off) mod BUFFER_CHUNK_SIZE = of_nat ((index_position index + ?n) mod 4096)"
      unfolding Pmod m[symmetric] by simp
    have pos: "index_position (buffer_index_add index off) = index_position index + ?n"
      unfolding r P by (simp add: index_position_def c' m unat_BUFFER_CHUNK_SIZE)
    show ?thesis using 1 pos by (simp add: r e1 e2)
  next
    case 2
    have r: "buffer_index_add index off = index\<lparr>offset := BUFFER_CHUNK_SIZE\<rparr>"
    proof -
      have "offset index + off = BUFFER_CHUNK_SIZE"
        using 2 sum by (simp add: word_unat_eq_iff unat_BUFFER_CHUNK_SIZE)
      then show ?thesis by (simp add: buffer_index_add_def Let_def)
    qed
    show ?thesis using 2 by (simp add: r index_position_def unat_BUFFER_CHUNK_SIZE)
  next
    case 3
    have r: "buffer_index_add index off = index\<lparr>offset := offset index + off\<rparr>"
      using 3 gt by (simp add: buffer_index_add_def Let_def)
    have e2: "offset index + off = of_nat ((index_position index + ?n) mod 4096)"
    proof -
      have "of_nat (unat (offset index + off)) = offset index + off" by simp
      then show ?thesis unfolding Pmod sum using 3 by simp
    qed
    have e1: "chunk index = of_nat ((index_position index + ?n) div 4096)"
      unfolding Pdiv using 3 by simp
    have pos: "index_position (buffer_index_add index off) = index_position index + ?n"
      unfolding r by (simp add: index_position_def sum)
    show ?thesis using 3 pos unfolding r by (simp add: e1[symmetric] e2[symmetric])
  qed
qed


theorem buffer_index_add_position_witness:
  "offset \<lparr>chunk = 0, offset = 4000\<rparr> \<le> BUFFER_CHUNK_SIZE \<and>
   unat (offset \<lparr>chunk = 0, offset = 4000\<rparr>) + unat (200 :: uint32_t) < 2 ^ 32 \<and>
   (index_position \<lparr>chunk = 0, offset = 4000\<rparr> + unat (200 :: uint32_t)) div 4096 < 2 ^ 31 \<and>
   buffer_index_add \<lparr>chunk = 0, offset = 4000\<rparr> 200 = \<lparr>chunk = 1, offset = 104\<rparr> \<and>
   buffer_index_add \<lparr>chunk = 3, offset = 4000\<rparr> 96 = \<lparr>chunk = 3, offset = 4096\<rparr>"
proof -
  have a: "offset \<lparr>chunk = 0, offset = 4000\<rparr> \<le> BUFFER_CHUNK_SIZE"
    "unat (offset \<lparr>chunk = 0, offset = 4000\<rparr>) + unat (200 :: uint32_t) < 2 ^ 32"
    "(index_position \<lparr>chunk = 0, offset = 4000\<rparr> + unat (200 :: uint32_t)) div 4096 < 2 ^ 31"
    by (simp_all add: index_position_def BUFFER_CHUNK_SIZE_def)
  have b: "offset \<lparr>chunk = 3, offset = 4000\<rparr> \<le> BUFFER_CHUNK_SIZE"
    "unat (offset \<lparr>chunk = 3, offset = 4000\<rparr>) + unat (96 :: uint32_t) < 2 ^ 32"
    "(index_position \<lparr>chunk = 3, offset = 4000\<rparr> + unat (96 :: uint32_t)) div 4096 < 2 ^ 31"
    by (simp_all add: index_position_def BUFFER_CHUNK_SIZE_def)
  show ?thesis
    using a buffer_index_add_position [OF a] buffer_index_add_position [OF b]
    by (simp add: index_position_def BUFFER_CHUNK_SIZE_def)
qed

text \<open>
  Claim C4 as stated fails: advancing the cursor (0, 0) by 4096 gives (0, 4096), not the
  normalised cursor (1, 0), since the code rolls over only when the offset is greater
  than the chunk size.
\<close>

theorem buffer_index_add_boundary_counterexample:
  "\<not> (chunk (buffer_index_add \<lparr>chunk = 0, offset = 0\<rparr> 4096) =
          of_nat ((index_position \<lparr>chunk = 0, offset = 0\<rparr> + unat (4096 :: uint32_t)) div 4096) \<and>
        offset (buffer_index_add \<lparr>chunk = 0, offset = 0\<rparr> 4096) =
          of_nat ((index_position \<lparr>chunk = 0, offset = 0\<rparr> + unat (4096 :: uint32_t)) mod 4096))"
  by (simp add: buffer_index_add_def index_position_def BUFFER_CHUNK_SIZE_def)


section \<open>The state machine and the transition table\<close>

text \<open>For each state, the code and the table agree on every request and response
  other than \<^verbatim>\<open>RECORD\<close>.\<close>

lemma transition_negotiation:
  "state client = BS_NEGOTIATION \<Longrightarrow> response_type \<noteq> BST_RECORD \<Longrightarrow>
   bolt_change_client_state client request_type response_type =
     (case spec_transition BS_NEGOTIATION request_type response_type of
        Some s \<Rightarrow> Inr (client\<lparr>state := s\<rparr>)
      | None \<Rightarrow> Inl AssertionFailed)"
  by (cases request_type;
      simp add: bolt_change_client_state_def bolt_change_negotiation_state_def
                spec_transition_def spec_transition_table_def;
      cases response_type; simp)

lemma transition_authentication:
  "state client = BS_AUTHENTICATION \<Longrightarrow> response_type \<noteq> BST_RECORD \<Longrightarrow>
   bolt_change_client_state client request_type response_type =
     (case spec_transition BS_AUTHENTICATION request_type response_type of
        Some s \<Rightarrow> Inr (client\<lparr>state := s\<rparr>)
      | None \<Rightarrow> Inl AssertionFailed)"
  by (cases request_type;
      simp add: bolt_change_client_state_def bolt_change_authentication_state_def
                spec_transition_def spec_transition_table_def;
      cases response_type; simp)

lemma transition_ready:
  "state client = BS_READY \<Longrightarrow> response_type \<noteq> BST_RECORD \<Longrightarrow>
   bolt_change_client_state client request_type response_type =
     (case spec_transition BS_READY request_type response_type of
        Some s \<Rightarrow> Inr (client\<lparr>state := s\<rparr>)
      | None \<Rightarrow> Inl AssertionFailed)"
  by (cases request_type;
      simp add: bolt_change_client_state_def bolt_change_ready_state_def
                spec_transition_def spec_transition_table_def;
      cases response_type; simp)

lemma transition_streaming:
  "state client = BS_STREAMING \<Longrightarrow> response_type \<noteq> BST_RECORD \<Longrightarrow>
   bolt_change_client_state client request_type response_type =
     (case spec_transition BS_STREAMING request_type response_type of
        Some s \<Rightarrow> Inr (client\<lparr>state := s\<rparr>)
      | None \<Rightarrow> Inl AssertionFailed)"
  by (cases request_type;
      simp add: bolt_change_client_state_def bolt_change_streaming_state_def
                spec_transition_def spec_transition_table_def;
      cases response_type; simp)

lemma transition_txready:
  "state client = BS_TX_READY \<Longrightarrow> response_type \<noteq> BST_RECORD \<Longrightarrow>
   bolt_change_client_state client request_type response_type =
     (case spec_transition BS_TX_READY request_type response_type of
        Some s \<Rightarrow> Inr (client\<lparr>state := s\<rparr>)
      | None \<Rightarrow> Inl AssertionFailed)"
  by (cases request_type;
      simp add: bolt_change_client_state_def bolt_change_txready_state_def
                spec_transition_def spec_transition_table_def;
      cases response_type; simp)

lemma transition_txstreaming:
  "state client = BS_TX_STREAMING \<Longrightarrow> response_type \<noteq> BST_RECORD \<Longrightarrow>
   bolt_change_client_state client request_type response_type =
     (case spec_transition BS_TX_STREAMING request_type response_type of
        Some s \<Rightarrow> Inr (client\<lparr>state := s\<rparr>)
      | None \<Rightarrow> Inl AssertionFailed)"
  by (cases request_type;
      simp add: bolt_change_client_state_def bolt_change_txstreaming_state_def
                spec_transition_def spec_transition_table_def;
      cases response_type; simp)

lemma transition_failed:
  "state client = BS_FAILED \<Longrightarrow> response_type \<noteq> BST_RECORD \<Longrightarrow>
   bolt_change_client_state client request_type response_type =
     (case spec_transition BS_FAILED request_type response_type of
        Some s \<Rightarrow> Inr (client\<lparr>state := s\<rparr>)
      | None \<Rightarrow> Inl AssertionFailed)"
  by (cases request_type;
      simp add: bolt_change_client_state_def bolt_change_failed_state_def
                spec_transition_def spec_transition_table_def;
      cases response_type; simp)

lemma transition_interrupted:
  "state client = BS_INTERRUPTED \<Longrightarrow> response_type \<noteq> BST_RECORD \<Longrightarrow>
   bolt_change_client_state client request_type response_type =
     (case spec_transition BS_INTERRUPTED request_type response_type of
        Some s \<Rightarrow> Inr (client\<lparr>state := s\<rparr>)
      | None \<Rightarrow> Inl AssertionFailed)"
  by (cases request_type;
      simp add: bolt_change_client_state_def bolt_change_interrupted_state_def
                spec_transition_def spec_transition_table_def;
      cases response_type; simp)

lemma transition_defunct:
  "state client = BS_DEFUNCT \<Longrightarrow> response_type \<noteq> BST_RECORD \<Longrightarrow>
   bolt_change_client_state client request_type response_type = Inl AssertionFailed \<and>
   spec_transition BS_DEFUNCT request_type response_type = None"
  by (simp add: bolt_change_client_state_def spec_transition_def spec_transition_table_def)


lemma change_client_state_cases:
  "bolt_change_client_state client request_type response_type = Inr client \<or>
   bolt_change_client_state client request_type response_type = Inl AssertionFailed \<or>
   (\<exists>s. bolt_change_client_state client request_type response_type = Inr (client\<lparr>state := s\<rparr>))"
proof (cases "response_type = BST_RECORD")
  case True
  then show ?thesis by (simp add: bolt_change_client_state_def)
next
  case False
  then have "bolt_change_client_state client request_type response_type =
        (case spec_transition (state client) request_type response_type of
           Some s \<Rightarrow> Inr (client\<lparr>state := s\<rparr>)
         | None \<Rightarrow> Inl AssertionFailed)"
    by (cases "state client")
       (simp_all add: transition_negotiation transition_authentication transition_ready
          transition_streaming transition_txready transition_txstreaming transition_failed
          transition_interrupted transition_defunct)
  then show ?thesis by (auto split: option.splits)
qed

text \<open>
  Claim C1, as amended. For every state, request and response other than \<^verbatim>\<open>RECORD\<close>:
  if the table of section 4.4 lists the triple, \<^verbatim>\<open>bolt_change_client_state\<close> sets the
  state to the next state of the table and changes nothing else; if the table does not
  list it, the function traps on an assertion. In state \<^verbatim>\<open>DEFUNCT\<close> every response
  other than \<^verbatim>\<open>RECORD\<close> traps and \<^verbatim>\<open>RECORD\<close> returns with the state still
  \<^verbatim>\<open>DEFUNCT\<close>, so no transition leaves \<^verbatim>\<open>DEFUNCT\<close>.
\<close>

theorem change_client_state_table:
  "(response_type \<noteq> BST_RECORD \<longrightarrow>
      bolt_change_client_state client request_type response_type =
        (case spec_transition (state client) request_type response_type of
           Some s \<Rightarrow> Inr (client\<lparr>state := s\<rparr>)
         | None \<Rightarrow> Inl AssertionFailed)) \<and>
   bolt_change_client_state (client\<lparr>state := BS_DEFUNCT\<rparr>) request_type response_type =
     (if response_type = BST_RECORD then Inr (client\<lparr>state := BS_DEFUNCT\<rparr>)
      else Inl AssertionFailed)"
proof (intro conjI impI)
  assume "response_type \<noteq> BST_RECORD"
  then show "bolt_change_client_state client request_type response_type =
        (case spec_transition (state client) request_type response_type of
           Some s \<Rightarrow> Inr (client\<lparr>state := s\<rparr>)
         | None \<Rightarrow> Inl AssertionFailed)"
    by (cases "state client")
       (simp_all add: transition_negotiation transition_authentication transition_ready
          transition_streaming transition_txready transition_txstreaming transition_failed
          transition_interrupted transition_defunct)
next
  show "bolt_change_client_state (client\<lparr>state := BS_DEFUNCT\<rparr>) request_type response_type =
     (if response_type = BST_RECORD then Inr (client\<lparr>state := BS_DEFUNCT\<rparr>)
      else Inl AssertionFailed)"
    by (simp add: bolt_change_client_state_def)
qed

theorem change_client_state_table_witness:
  "BST_SUCCESS \<noteq> BST_RECORD \<and>
   spec_transition (state example_client) BST_HELLO BST_SUCCESS = Some BS_AUTHENTICATION \<and>
   bolt_change_client_state example_client BST_HELLO BST_SUCCESS =
     Inr (example_client\<lparr>state := BS_AUTHENTICATION\<rparr>) \<and>
   bolt_change_client_state (example_client\<lparr>state := BS_DEFUNCT\<rparr>) BST_GOODBYE BST_SUCCESS =
     Inl AssertionFailed"
  using change_client_state_table [of BST_SUCCESS example_client BST_HELLO]
        change_client_state_table [of BST_SUCCESS example_client BST_GOODBYE]
  by (simp add: example_client_def spec_transition_def spec_transition_table_def)

text \<open>
  Claim C1 as stated fails: the triple (\<^verbatim>\<open>DEFUNCT\<close>, \<^verbatim>\<open>GOODBYE\<close>, \<^verbatim>\<open>RECORD\<close>) is
  absent from the table (no row starts from \<^verbatim>\<open>DEFUNCT\<close>), and the function returns
  without trapping, because a \<^verbatim>\<open>RECORD\<close> response returns before the state is looked
  at.
\<close>

theorem defunct_record_counterexample:
  "\<not> (spec_transition BS_DEFUNCT BST_GOODBYE BST_RECORD = None \<longrightarrow>
        bolt_change_client_state (example_client\<lparr>state := BS_DEFUNCT\<rparr>) BST_GOODBYE BST_RECORD =
          Inl AssertionFailed)"
  by (simp add: spec_transition_def spec_transition_table_def bolt_change_client_state_def)

text \<open>
  Claim C9. For every session state and every request, \<^verbatim>\<open>bolt_change_client_state\<close>
  with the response \<^verbatim>\<open>RECORD\<close> returns (it does not trap) and leaves the session,
  and so its state, as it was.
\<close>

theorem record_leaves_state:
  "bolt_change_client_state client request_type BST_RECORD = Inr client"
  by (simp add: bolt_change_client_state_def)

text \<open>
  Claim C10. Whenever \<^verbatim>\<open>bolt_change_client_state\<close> returns, the session it leaves
  differs from the one it was given in the state field at most: socket, flags, buffers
  and cursors are those of the argument.
\<close>

theorem change_client_state_frame:
  "bolt_change_client_state client request_type response_type = Inr client' \<Longrightarrow>
   client' = client\<lparr>state := state client'\<rparr>"
  using change_client_state_cases [of client request_type response_type] by auto

theorem change_client_state_frame_witness:
  "bolt_change_client_state example_client BST_HELLO BST_FAILURE =
     Inr (example_client\<lparr>state := BS_DEFUNCT\<rparr>) \<and>
   example_client\<lparr>state := BS_DEFUNCT\<rparr> =
     example_client\<lparr>state := state (example_client\<lparr>state := BS_DEFUNCT\<rparr>)\<rparr>"
proof -
  have h: "bolt_change_client_state example_client BST_HELLO BST_FAILURE =
     Inr (example_client\<lparr>state := BS_DEFUNCT\<rparr>)"
    by (simp add: bolt_change_client_state_def bolt_change_negotiation_state_def example_client_def)
  show ?thesis using h change_client_state_frame [OF h] by simp
qed

section \<open>Reading from the socket\<close>

lemma chunk_valid_0: "chs \<noteq> [] \<Longrightarrow> length (chs ! 0) = 4096 \<Longrightarrow> chunk_valid chs 0"
  by (simp add: chunk_valid_def unat_BUFFER_CHUNK_SIZE)

lemma chunk_valid_1: "length chs > 1 \<Longrightarrow> length (chs ! 1) = 4096 \<Longrightarrow> chunk_valid chs 1"
  by (simp add: chunk_valid_def unat_BUFFER_CHUNK_SIZE)

lemma loop_after_full_chunk:
  "buffer_socket_read_loop
     \<lparr>chunks = [replicate 4096 1], read = \<lparr>chunk = 0, offset = 0\<rparr>,
      write' = \<lparr>chunk = 0, offset = BUFFER_CHUNK_SIZE\<rparr>\<rparr>
     (full_chunk_then_eof\<lparr>inbound := []\<rparr>) =
   Inr (True,
        \<lparr>chunks = [replicate 4096 1, rm_malloc_chunk], read = \<lparr>chunk = 0, offset = 0\<rparr>,
         write' = \<lparr>chunk = 1, offset = 0\<rparr>\<rparr>,
        full_chunk_then_eof\<lparr>inbound := []\<rparr>)"
  apply (subst buffer_socket_read_loop.simps)
  apply (simp add: Let_def chunk_ptr_def chunk_valid_1 length_rm_malloc_chunk socket_read_def
      full_chunk_then_eof_def unat_BUFFER_CHUNK_SIZE chunk_store_def buffer_index_add_def)
  apply (subst buffer_socket_read_loop.simps)
  apply (simp add: BUFFER_CHUNK_SIZE_def)
  done

lemma BUFFER_CHUNK_SIZE_pos: "0 < BUFFER_CHUNK_SIZE"
  by (simp add: BUFFER_CHUNK_SIZE_def)

text \<open>
  Claim C5 (the code departs from it). The peer sends exactly the 4096 bytes that fill
  the chunk and closes. The first read fills the chunk; the continuation read into the
  new chunk returns 0, end of file, and \<^verbatim>\<open>buffer_socket_read\<close> returns \<^verbatim>\<open>true\<close>:
  the loop tests the continuation read for an error only. The same end of file met by
  the first read of a call returns \<^verbatim>\<open>false\<close>.
\<close>

theorem buffer_socket_read_eof_on_continuation:
  "buffer_socket_read empty_buffer full_chunk_then_eof =
     Inr (True,
          \<lparr>chunks = [replicate 4096 1, rm_malloc_chunk], read = \<lparr>chunk = 0, offset = 0\<rparr>,
           write' = \<lparr>chunk = 1, offset = 0\<rparr>\<rparr>,
          full_chunk_then_eof\<lparr>inbound := []\<rparr>) \<and>
   buffer_socket_read empty_buffer (full_chunk_then_eof\<lparr>inbound := []\<rparr>) =
     Inr (False, empty_buffer, full_chunk_then_eof\<lparr>inbound := []\<rparr>)"
proof -
  have first: "buffer_socket_read empty_buffer (full_chunk_then_eof\<lparr>inbound := []\<rparr>) =
     Inr (False, empty_buffer, full_chunk_then_eof\<lparr>inbound := []\<rparr>)"
    by (simp add: buffer_socket_read_def empty_buffer_def full_chunk_then_eof_def chunk_ptr_def
          chunk_valid_0 length_rm_malloc_chunk seq_def socket_read_def unat_BUFFER_CHUNK_SIZE
          BUFFER_CHUNK_SIZE_pos)
  have rd: "socket_read full_chunk_then_eof (unat BUFFER_CHUNK_SIZE) =
              (4096, replicate 4096 1, full_chunk_then_eof\<lparr>inbound := []\<rparr>)"
    by (simp add: socket_read_def full_chunk_then_eof_def unat_BUFFER_CHUNK_SIZE)
  have st: "chunk_store [rm_malloc_chunk] \<lparr>chunk = 0, offset = 0\<rparr> (replicate 4096 1) =
              Inr [replicate 4096 1]"
    by (simp add: chunk_store_def chunk_valid_0 length_rm_malloc_chunk unat_BUFFER_CHUNK_SIZE)
  have add: "buffer_index_add \<lparr>chunk = 0, offset = 0\<rparr> 4096 = \<lparr>chunk = 0, offset = BUFFER_CHUNK_SIZE\<rparr>"
    by (simp add: buffer_index_add_def BUFFER_CHUNK_SIZE_def)
  have ptr: "chunk_ptr [rm_malloc_chunk] \<lparr>chunk = 0, offset = 0\<rparr> = Inr \<lparr>chunk = 0, offset = 0\<rparr>"
    by (simp add: chunk_ptr_def chunk_valid_0 length_rm_malloc_chunk)
  have fd: "fd full_chunk_then_eof > 0" by (simp add: full_chunk_then_eof_def)
  have "buffer_socket_read empty_buffer full_chunk_then_eof =
     Inr (True,
          \<lparr>chunks = [replicate 4096 1, rm_malloc_chunk], read = \<lparr>chunk = 0, offset = 0\<rparr>,
           write' = \<lparr>chunk = 1, offset = 0\<rparr>\<rparr>,
          full_chunk_then_eof\<lparr>inbound := []\<rparr>)"
    unfolding buffer_socket_read_def empty_buffer_def
    by (simp add: fd ptr seq_def rd st add loop_after_full_chunk BUFFER_CHUNK_SIZE_pos)
  with first show ?thesis by (rule conjI [rotated])
qed


section \<open>Writes inside the first chunk\<close>

lemma unat_of_nat_small: "n \<le> 4096 \<Longrightarrow> unat (of_nat n :: uint32_t) = n"
  by (simp add: unsigned_of_nat take_bit_nat_eq_self)

lemma buffer_write_chunk0:
  assumes "chs \<noteq> []" and "length (chs ! 0) = 4096" and "off + length data \<le> 4096"
  shows "buffer_write chs \<lparr>chunk = 0, offset = of_nat off\<rparr> data =
           Inr (chs[0 := take off (chs ! 0) @ data @ drop (off + length data) (chs ! 0)],
                \<lparr>chunk = 0, offset = of_nat (off + length data)\<rparr>)"
proof -
  have o: "unat (of_nat off :: uint32_t) = off" 
    using assms(3) by (simp add: unat_of_nat_small)
  have "unat (of_nat (off + length data) :: uint32_t) = off + length data"
    by (rule unat_of_nat_small) (rule assms(3))
  then have s: "unat (of_nat off + of_nat (length data) :: uint32_t) = off + length data"
    by simp
  have ngt: "\<not> BUFFER_CHUNK_SIZE < (of_nat off + of_nat (length data) :: uint32_t)"
    using assms(3) by (simp add: word_less_nat_alt s unat_BUFFER_CHUNK_SIZE)
  have st: "chunk_store chs \<lparr>chunk = 0, offset = of_nat off\<rparr> data =
              Inr (chs[0 := take off (chs ! 0) @ data @ drop (off + length data) (chs ! 0)])"
    using assms by (simp add: chunk_store_def chunk_valid_0 o unat_BUFFER_CHUNK_SIZE)
  have add: "buffer_index_add \<lparr>chunk = 0, offset = of_nat off\<rparr> (of_nat (length data)) =
               \<lparr>chunk = 0, offset = of_nat off + of_nat (length data)\<rparr>"
    using ngt by (simp add: buffer_index_add_def Let_def)
  show ?thesis
    by (subst buffer_write.simps) (simp add: Let_def ngt st seq_def add)
qed


lemma buffer_write_in_chunk0:
  assumes "chs \<noteq> []" and "length (chs ! 0) = 4096" and "unat off + length data \<le> 4096"
  shows "buffer_write chs \<lparr>chunk = 0, offset = off\<rparr> data =
           Inr (chs[0 := take (unat off) (chs ! 0) @ data @ drop (unat off + length data) (chs ! 0)],
                \<lparr>chunk = 0, offset = off + of_nat (length data)\<rparr>)"
  using buffer_write_chunk0 [OF assms] by simp

lemma write_buf_write_chunk0:
  assumes "chunks (write_buf client) \<noteq> []" and "length (chunks (write_buf client) ! 0) = 4096"
    and "chunk (write' (write_buf client)) = 0"
    and "unat (offset (write' (write_buf client))) + length data \<le> 4096"
  shows "write_buf_write client data =
           Inr (client\<lparr>write_buf := (write_buf client)
                  \<lparr>chunks := (chunks (write_buf client))[0 :=
                      take (unat (offset (write' (write_buf client)))) (chunks (write_buf client) ! 0) @
                      data @
                      drop (unat (offset (write' (write_buf client))) + length data)
                        (chunks (write_buf client) ! 0)],
                   write' := \<lparr>chunk = 0, offset = offset (write' (write_buf client)) +
                                                  of_nat (length data)\<rparr>\<rparr>\<rparr>)"
proof -
  have w: "write' (write_buf client) = \<lparr>chunk = 0, offset = offset (write' (write_buf client))\<rparr>"
    using assms(3) by (cases "write' (write_buf client)") simp
  show ?thesis
    unfolding write_buf_write_def
    by (subst w) (simp add: buffer_write_in_chunk0 [OF assms(1,2,4)] seq_def)
qed

lemma client_write_write_chunk0:
  assumes "chunks (write_buf client) \<noteq> []" and "length (chunks (write_buf client) ! 0) = 4096"
    and "chunk (client_write client) = 0"
    and "unat (offset (client_write client)) + length data \<le> 4096"
  shows "client_write_write client data =
           Inr (client\<lparr>write_buf := (write_buf client)
                  \<lparr>chunks := (chunks (write_buf client))[0 :=
                      take (unat (offset (client_write client))) (chunks (write_buf client) ! 0) @
                      data @
                      drop (unat (offset (client_write client)) + length data)
                        (chunks (write_buf client) ! 0)]\<rparr>,
                 client_write := \<lparr>chunk = 0, offset = offset (client_write client) +
                                                      of_nat (length data)\<rparr>\<rparr>)"
proof -
  have w: "client_write client = \<lparr>chunk = 0, offset = offset (client_write client)\<rparr>"
    using assms(3) by (cases "client_write client") simp
  show ?thesis
    unfolding client_write_write_def
    by (subst w) (simp add: buffer_write_in_chunk0 [OF assms(1,2,4)] seq_def)
qed

lemma le_bytes_1: "le_bytes (Suc 0) v = [ucast v]"
  by (simp add: le_bytes_def)

text \<open>
  Claim C6 (the code departs from it). A WebSocket session ends a message of 252 payload
  bytes: the frame payload (chunk length, payload and terminator) is the 256 bytes from
  offset 2 to the saved cursor at 258, and the frame header written at offset 0 is
  \<open>0x82\<close> followed by the length byte \<open>0x00\<close>, the low byte of 256. The two bytes
  after it are the chunk length 252 in network order.
\<close>

theorem end_message_ws_length_byte:
  "(case bolt_client_end_message ws_client_252 of
      Inl e \<Rightarrow> False
    | Inr client \<Rightarrow>
        take 4 (chunks (write_buf client) ! 0) = [0x82, 0x00, 0x00, 0xFC] \<and>
        client_write client = \<lparr>chunk = 0, offset = 258\<rparr>)"
  unfolding bolt_client_end_message_def ws_client_252_def example_client_def
  by (simp add: Let_def seq_def buffer_index_diff_def le_bytes_1 le_bytes_2 htons_def
        write_buf_write_chunk0 client_write_write_chunk0 length_rm_malloc_chunk)


section \<open>Acknowledging a reset\<close>

lemma htons_bytes: "le_bytes 2 (htons n) = [ucast (drop_bit 8 n), ucast n]"
proof -
  have a: "(ucast (push_bit 8 n OR drop_bit 8 n) :: uint8_t) = ucast (drop_bit 8 n)"
    by (rule bit_word_eqI) (auto simp: bit_simps)
  have b: "(ucast (drop_bit 8 (push_bit 8 n OR drop_bit 8 n)) :: uint8_t) = ucast n"
    by (rule bit_word_eqI) (auto simp: bit_simps)
  have c: "(ucast (drop_bit 8 (push_bit 8 n)) :: uint8_t) = ucast n"
    by (rule bit_word_eqI) (auto simp: bit_simps)
  show ?thesis by (simp add: le_bytes_2 htons_def a b c)
qed

lemma array_len_bound:
  assumes "chs \<noteq> []" "length chs < 2 ^ 20"
  shows "2 < BUFFER_CHUNK_SIZE * array_len chs" "0 < BUFFER_CHUNK_SIZE * array_len chs"
proof -
  have l: "1 \<le> length chs" using assms(1) by (cases chs) simp_all
  have "unat (of_nat (length chs) :: uint32_t) = length chs"
    using assms(2) by (simp add: unsigned_of_nat take_bit_nat_eq_self)
  moreover have "4096 * length chs < 2 ^ 32" using assms(2) by simp
  ultimately have "unat (BUFFER_CHUNK_SIZE * array_len chs) = 4096 * length chs"
    by (simp add: array_len_def unat_BUFFER_CHUNK_SIZE unat_mult_lem [THEN iffD1])
  with l have "2 < unat (BUFFER_CHUNK_SIZE * array_len chs)" by simp
  then show "2 < BUFFER_CHUNK_SIZE * array_len chs" "0 < BUFFER_CHUNK_SIZE * array_len chs"
    by (simp_all add: word_less_nat_alt)
qed

lemma reset_cursors_eq:
  assumes "write_buf_ok client"
  shows "reset_cursors client =
           Inr (client\<lparr>client_write := \<lparr>chunk = 0, offset = 0\<rparr>,
                       write_buf := (write_buf client)\<lparr>write' := \<lparr>chunk = 0, offset = 2\<rparr>\<rparr>\<rparr>)"
proof -
  have "chunks (write_buf client) \<noteq> []" "length (chunks (write_buf client)) < 2 ^ 20"
    using assms by (simp_all add: write_buf_ok_def)
  note b = array_len_bound [OF this]
  have "(0 :: uint32_t) div BUFFER_CHUNK_SIZE = 0" "(0 :: uint32_t) mod BUFFER_CHUNK_SIZE = 0"
    "(2 :: uint32_t) div BUFFER_CHUNK_SIZE = 0" "(2 :: uint32_t) mod BUFFER_CHUNK_SIZE = 2"
    by (simp_all add: BUFFER_CHUNK_SIZE_def)
  then show ?thesis
    by (simp add: reset_cursors_def buffer_index_def seq_def b)
qed


lemma unat_add_small:
  "unat (a :: uint32_t) + n \<le> 4096 \<Longrightarrow> unat (a + of_nat n) = unat a + n"
proof -
  assume a: "unat a + n \<le> 4096"
  then have n: "unat (of_nat n :: uint32_t) = n" by (simp add: unat_of_nat_small)
  have "unat a + unat (of_nat n :: uint32_t) < 2 ^ LENGTH(32)" using a n by simp
  then have "unat (a + of_nat n) = unat a + unat (of_nat n :: uint32_t)"
    by (rule unat_add_lem [THEN iffD1])
  then show ?thesis using n by simp
qed

lemma write_buf_write_ok:
  assumes "write_buf_ok client" and "chunk (write' (write_buf client)) = 0"
    and "unat (offset (write' (write_buf client))) + length data \<le> 4096"
  shows "\<exists>client'. write_buf_write client data = Inr client' \<and> write_buf_ok client' \<and>
           chunk (write' (write_buf client')) = 0 \<and>
           unat (offset (write' (write_buf client'))) =
             unat (offset (write' (write_buf client))) + length data \<and>
           chunks (write_buf client') ! 0 =
             take (unat (offset (write' (write_buf client)))) (chunks (write_buf client) ! 0) @ data @
             drop (unat (offset (write' (write_buf client))) + length data)
               (chunks (write_buf client) ! 0) \<and>
           client' = client\<lparr>write_buf := write_buf client'\<rparr> \<and>
           read (write_buf client') = read (write_buf client)"
proof -
  have a: "chunks (write_buf client) \<noteq> []" "length (chunks (write_buf client) ! 0) = 4096"
    using assms(1) by (simp_all add: write_buf_ok_def)
  show ?thesis
    using assms a
    by (simp add: write_buf_write_chunk0 [OF a assms(2,3)] write_buf_ok_def unat_add_small)
qed

lemma buffer_socket_write_chunk0:
  assumes "chs \<noteq> []" and "length (chs ! 0) = 4096" and "unat off \<le> 4096"
    and "0 < fd sock" and "\<not> write_fails sock"
  shows "buffer_socket_write chs \<lparr>chunk = 0, offset = off\<rparr> sock =
           Inr (True, sock\<lparr>outbound := outbound sock @ take (unat off) (chs ! 0)\<rparr>)"
  using assms
  by (simp add: buffer_socket_write_def seq_def chunk_load_def chunk_valid_0
        unat_BUFFER_CHUNK_SIZE socket_write_all_def)

lemma ucast_of_nat_down: "(ucast (of_nat k :: uint32_t) :: uint16_t) = of_nat k"
  by (simp add: word_unat_eq_iff unsigned_ucast_eq unsigned_of_nat)

lemma diff_from_start:
  assumes "unat off = 2 + n" and "n + 4 \<le> 4096"
  shows "buffer_index_diff \<lparr>chunk = 0, offset = off\<rparr> \<lparr>chunk = 0, offset = 0\<rparr> - 2 = of_nat n"
proof -
  have "off = of_nat (unat off)" by simp
  then have "off = of_nat (2 + n)" using assms(1) by simp
  then have "(ucast off :: uint16_t) = of_nat (2 + n)"
    by (simp only: ucast_of_nat_down)
  then show ?thesis by (simp add: buffer_index_diff_def)
qed

lemma client_write_write_ok:
  assumes "write_buf_ok client" and "chunk (client_write client) = 0"
    and "unat (offset (client_write client)) + length data \<le> 4096"
  shows "\<exists>client'. client_write_write client data = Inr client' \<and> write_buf_ok client' \<and>
           chunks (write_buf client') ! 0 =
             take (unat (offset (client_write client))) (chunks (write_buf client) ! 0) @ data @
             drop (unat (offset (client_write client)) + length data)
               (chunks (write_buf client) ! 0) \<and>
           client' = client\<lparr>write_buf := write_buf client', client_write := client_write client'\<rparr> \<and>
           write' (write_buf client') = write' (write_buf client) \<and>
           read (write_buf client') = read (write_buf client)"
proof -
  have a: "chunks (write_buf client) \<noteq> []" "length (chunks (write_buf client) ! 0) = 4096"
    using assms(1) by (simp_all add: write_buf_ok_def)
  show ?thesis
    using assms a
    by (simp add: client_write_write_chunk0 [OF a assms(2,3)] write_buf_ok_def)
qed

lemma message_in_chunk:
  fixes hdr p ch :: "uint8_t list"
  assumes "length hdr = 2" and "length ch = 4096" and "length p + 4 \<le> 4096"
    and "take (length p) (drop 2 ch) = p"
    and x: "x = take 0 ch @ hdr @ drop (0 + length hdr) ch"
    and y: "y = take (2 + length p) x @ [0] @ drop (2 + length p + length [0::uint8_t]) x"
    and z: "z = take (3 + length p) y @ [0] @ drop (3 + length p + length [0::uint8_t]) y"
  shows "take (4 + length p) z = hdr @ p @ [0, 0]"
proof -
  have x': "x = hdr @ drop 2 ch" unfolding x assms(1) by (simp add: numeral_2_eq_2)
  have tx: "take (2 + length p) x = hdr @ p"
    unfolding x' using assms(1,4) by simp
  have "\<exists>r. y = (hdr @ p @ [0]) @ r" unfolding y tx by simp
  then obtain r where y': "y = (hdr @ p @ [0]) @ r" ..
  have ty: "take (3 + length p) y = hdr @ p @ [0]"
    unfolding y' using assms(1) by simp
  have "\<exists>r. z = (hdr @ p @ [0, 0]) @ r" unfolding z ty by simp
  then obtain r' where z': "z = (hdr @ p @ [0, 0]) @ r'" ..
  show ?thesis unfolding z' using assms(1) by simp
qed

lemma close_and_send_eq:
  assumes ok: "write_buf_ok client"
    and cw: "client_write client = \<lparr>chunk = 0, offset = 0\<rparr>"
    and w: "chunk (write' (write_buf client)) = 0"
    and wo: "unat (offset (write' (write_buf client))) = 2 + length p"
    and p: "take (length p) (drop 2 (chunks (write_buf client) ! 0)) = p"
    and len: "length p + 4 \<le> 4096"
    and fd: "0 < fd (socket client)" and wf: "\<not> write_fails (socket client)"
  shows "\<exists>client'. close_and_send client = Inr client' \<and> write_buf_ok client' \<and>
           socket client' = (socket client)\<lparr>outbound := outbound (socket client) @ bolt_message p\<rparr> \<and>
           client' = client\<lparr>write_buf := write_buf client', client_write := client_write client',
                             socket := socket client'\<rparr>"
proof -
  let ?n = "of_nat (length p) :: uint16_t"
  let ?hdr = "[ucast (drop_bit 8 ?n), ucast ?n] :: uint8_t list"
  have n: "buffer_index_diff (write' (write_buf client)) (client_write client) - 2 = ?n"
  proof -
    have "write' (write_buf client) = \<lparr>chunk = 0, offset = offset (write' (write_buf client))\<rparr>"
      using w by (cases "write' (write_buf client)") simp
    then show ?thesis using diff_from_start [OF wo len] cw by metis
  qed
  have l0: "length (chunks (write_buf client) ! 0) = 4096" using ok by (simp add: write_buf_ok_def)
  obtain c1 where c1: "client_write_write client ?hdr = Inr c1" "write_buf_ok c1"
    and x: "chunks (write_buf c1) ! 0 =
              take 0 (chunks (write_buf client) ! 0) @ ?hdr @
              drop (0 + length ?hdr) (chunks (write_buf client) ! 0)"
    and f1: "c1 = client\<lparr>write_buf := write_buf c1, client_write := client_write c1\<rparr>"
    and w1: "write' (write_buf c1) = write' (write_buf client)"
    using client_write_write_ok [OF ok, of ?hdr] cw by auto
  have s1: "socket c1 = socket client" by (subst f1) simp
  obtain c2 where c2: "write_buf_write c1 [0] = Inr c2" "write_buf_ok c2"
    and w2: "chunk (write' (write_buf c2)) = 0" "unat (offset (write' (write_buf c2))) = 3 + length p"
    and y: "chunks (write_buf c2) ! 0 =
              take (2 + length p) (chunks (write_buf c1) ! 0) @ [0] @
              drop (2 + length p + length [0::uint8_t]) (chunks (write_buf c1) ! 0)"
    and f2: "c2 = c1\<lparr>write_buf := write_buf c2\<rparr>"
    using write_buf_write_ok [OF c1(2), of "[0]"] w wo w1 len by auto
  obtain c3 where c3: "write_buf_write c2 [0] = Inr c3" "write_buf_ok c3"
    and w3: "chunk (write' (write_buf c3)) = 0" "unat (offset (write' (write_buf c3))) = 4 + length p"
    and z: "chunks (write_buf c3) ! 0 =
              take (3 + length p) (chunks (write_buf c2) ! 0) @ [0] @
              drop (3 + length p + length [0::uint8_t]) (chunks (write_buf c2) ! 0)"
    and f3: "c3 = c2\<lparr>write_buf := write_buf c3\<rparr>"
    using write_buf_write_ok [OF c2(2), of "[0]"] w2 len by auto
  have s3: "socket c3 = socket client"
    using s1 by (subst f3, subst f2) simp
  have msg: "take (4 + length p) (chunks (write_buf c3) ! 0) = bolt_message p"
    using message_in_chunk [OF _ l0 len p x y z] by (simp add: bolt_message_def Let_def)
  have wr3: "write' (write_buf c3) = \<lparr>chunk = 0, offset = offset (write' (write_buf c3))\<rparr>"
    using w3(1) by (cases "write' (write_buf c3)") simp
  have a3: "chunks (write_buf c3) \<noteq> []" "length (chunks (write_buf c3) ! 0) = 4096"
    using c3(2) by (simp_all add: write_buf_ok_def)
  have sw: "buffer_socket_write (chunks (write_buf c3)) (write' (write_buf c3)) (socket c3) =
              Inr (True, (socket client)\<lparr>outbound := outbound (socket client) @ bolt_message p\<rparr>)"
    by (subst wr3) (use a3 w3 len fd wf s3 msg in \<open>simp add: buffer_socket_write_chunk0\<close>)
  have cwe: "client_write c3 = client_write c1"
    by (subst f3, subst f2) simp
  have fr: "c3 = client\<lparr>write_buf := write_buf c3, client_write := client_write c3\<rparr>"
    unfolding cwe by (subst f3, subst f2, subst f1) simp
  have res: "close_and_send client =
          Inr (c3\<lparr>socket := (socket client)\<lparr>outbound := outbound (socket client) @ bolt_message p\<rparr>\<rparr>)"
    unfolding close_and_send_def n Let_def
    by (simp add: htons_bytes le_bytes_1 c1 c2 c3 sw seq_def)
  let ?s = "(socket client)\<lparr>outbound := outbound (socket client) @ bolt_message p\<rparr>"
  have fin: "c3\<lparr>socket := ?s\<rparr> =
          client\<lparr>write_buf := write_buf c3, client_write := client_write c3, socket := ?s\<rparr>"
    using arg_cong [OF fr, of "\<lambda>c. c\<lparr>socket := ?s\<rparr>"] by simp
  have ok3: "write_buf_ok (c3\<lparr>socket := ?s\<rparr>)" using c3(2) by (simp add: write_buf_ok_def)
  show ?thesis
    unfolding res by (rule exI [of _ "c3\<lparr>socket := ?s\<rparr>"]) (use fin ok3 in simp)
qed

lemma frame_write_buf:
  "c' = c\<lparr>write_buf := w\<rparr> \<Longrightarrow>
   client_write c' = client_write c \<and> socket c' = socket c \<and> state c' = state c \<and>
   reset c' = reset c"
  by simp

lemma reset_cursors_composed:
  assumes "write_buf_ok client"
  shows "\<exists>client'. reset_cursors client = Inr client' \<and> composed client' [] \<and>
           socket client' = socket client \<and> state client' = state client \<and>
           reset client' = reset client"
  using assms by (simp add: reset_cursors_eq composed_def write_buf_ok_def)

lemma write_composed:
  assumes "composed client p" and "length p + length d + 4 \<le> 4096"
  shows "\<exists>client'. write_buf_write client d = Inr client' \<and> composed client' (p @ d) \<and>
           socket client' = socket client \<and> state client' = state client \<and>
           reset client' = reset client"
proof -
  have ok: "write_buf_ok client" and cw: "client_write client = \<lparr>chunk = 0, offset = 0\<rparr>"
    and w: "chunk (write' (write_buf client)) = 0"
    and wo: "unat (offset (write' (write_buf client))) = 2 + length p"
    and p: "take (length p) (drop 2 (chunks (write_buf client) ! 0)) = p"
    using assms(1) by (simp_all add: composed_def)
  have l0: "length (chunks (write_buf client) ! 0) = 4096" using ok by (simp add: write_buf_ok_def)
  have b: "unat (offset (write' (write_buf client))) + length d \<le> 4096"
    using wo assms(2) by simp
  obtain c1 where c1: "write_buf_write client d = Inr c1" "write_buf_ok c1"
    and w1: "chunk (write' (write_buf c1)) = 0"
      "unat (offset (write' (write_buf c1))) = unat (offset (write' (write_buf client))) + length d"
    and x: "chunks (write_buf c1) ! 0 =
              take (unat (offset (write' (write_buf client)))) (chunks (write_buf client) ! 0) @ d @
              drop (unat (offset (write' (write_buf client))) + length d)
                (chunks (write_buf client) ! 0)"
    and f1: "c1 = client\<lparr>write_buf := write_buf c1\<rparr>"
    using write_buf_write_ok [OF ok w b] by auto
  note fr = frame_write_buf [OF f1]
  have split: "take (2 + length p) (chunks (write_buf client) ! 0) =
               take 2 (chunks (write_buf client) ! 0) @ p"
    by (simp only: take_add p)
  have "take (length (p @ d)) (drop 2 (chunks (write_buf c1) ! 0)) = p @ d"
    unfolding x wo split using l0 assms(2) by simp
  then have "composed c1 (p @ d)"
    using c1(2) fr cw w1 wo by (simp add: composed_def)
  then show ?thesis using c1(1) fr by auto
qed

lemma close_and_send_composed:
  assumes "composed client p" and "length p + 4 \<le> 4096"
    and "0 < fd (socket client)" and "\<not> write_fails (socket client)"
  shows "\<exists>client'. close_and_send client = Inr client' \<and> write_buf_ok client' \<and>
           socket client' = (socket client)\<lparr>outbound := outbound (socket client) @ bolt_message p\<rparr> \<and>
           state client' = state client \<and> reset client' = reset client"
proof -
  obtain c' where c: "close_and_send client = Inr c'" "write_buf_ok c'"
      "socket c' = (socket client)\<lparr>outbound := outbound (socket client) @ bolt_message p\<rparr>"
    and f: "c' = client\<lparr>write_buf := write_buf c', client_write := client_write c',
                         socket := socket c'\<rparr>"
    using close_and_send_eq [of client p] assms by (auto simp: composed_def)
  have "state c' = state client \<and> reset c' = reset client"
    by (subst f, subst f) simp
  then show ?thesis using c by auto
qed

text \<open>
  Claim C2. \<^verbatim>\<open>bolt_client_send\<close> with the reset flag set, on a session whose outbound
  buffer has its first chunk and whose socket accepts the write, for a codec whose
  headers fit into that chunk: if the state is not \<^verbatim>\<open>FAILED\<close>, the socket receives
  exactly one message, the \<^verbatim>\<open>SUCCESS\<close> structure header with one field followed by
  the empty map header, framed as a chunk with its terminator; reset is cleared and the
  state is unchanged. If the state is \<^verbatim>\<open>FAILED\<close>, the socket receives the
  \<^verbatim>\<open>IGNORED\<close> message followed by that \<^verbatim>\<open>SUCCESS\<close> message; reset is cleared and
  the state is \<^verbatim>\<open>READY\<close>.
\<close>

theorem bolt_client_send_reset:
  assumes "reset client" and "write_buf_ok client"
    and "0 < fd (socket client)" and "\<not> write_fails (socket client)"
    and "length (structure_header codec BST_SUCCESS 1) + length (map_header codec 0) + 4 \<le> 4096"
    and "length (structure_header codec BST_IGNORED 0) + 4 \<le> 4096"
  shows "\<exists>client'. bolt_client_send codec client = Inr client' \<and> \<not> reset client' \<and>
           outbound (socket client') = outbound (socket client) @
             (if state client \<noteq> BS_FAILED
              then bolt_message (structure_header codec BST_SUCCESS 1 @ map_header codec 0)
              else bolt_message (structure_header codec BST_IGNORED 0) @
                   bolt_message (structure_header codec BST_SUCCESS 1 @ map_header codec 0)) \<and>
           state client' = (if state client \<noteq> BS_FAILED then state client else BS_READY)"
proof -
  let ?s = "structure_header codec BST_SUCCESS 1" and ?m = "map_header codec 0"
  let ?i = "structure_header codec BST_IGNORED 0"
  have success: "\<exists>c'. seq (bolt_reply_structure codec c BST_SUCCESS 1) (\<lambda>client2.
                   seq (bolt_reply_map codec client2 0) (\<lambda>client3.
                   seq (close_and_send client3) (\<lambda>client4.
                   seq (reset_cursors client4) (\<lambda>client5. Inr (f client5))))) = Inr (f c') \<and>
             socket c' = (socket c)\<lparr>outbound := outbound (socket c) @ bolt_message (?s @ ?m)\<rparr> \<and>
             state c' = state c \<and> reset c' = reset c"
    if c: "composed c []" "0 < fd (socket c)" "\<not> write_fails (socket c)"
    for c and f :: "bolt_client_t \<Rightarrow> bolt_client_t"
  proof -
    obtain c2 where c2: "write_buf_write c ?s = Inr c2" "composed c2 ([] @ ?s)"
        "socket c2 = socket c" "state c2 = state c" "reset c2 = reset c"
      using write_composed [OF c(1), of ?s] assms(5) by auto
    obtain c3 where c3: "write_buf_write c2 ?m = Inr c3" "composed c3 (([] @ ?s) @ ?m)"
        "socket c3 = socket c2" "state c3 = state c2" "reset c3 = reset c2"
      using write_composed [OF c2(2), of ?m] assms(5) by auto
    obtain c4 where c4: "close_and_send c3 = Inr c4" "write_buf_ok c4"
        "socket c4 = (socket c3)\<lparr>outbound := outbound (socket c3) @ bolt_message (([] @ ?s) @ ?m)\<rparr>"
        "state c4 = state c3" "reset c4 = reset c3"
      using close_and_send_composed [OF c3(2)] assms(5) c(2,3) c2(3) c3(3) by auto
    obtain c5 where c5: "reset_cursors c4 = Inr c5" "socket c5 = socket c4" "state c5 = state c4"
        "reset c5 = reset c4"
      using reset_cursors_composed [OF c4(2)] by auto
    show ?thesis
      by (rule exI [of _ c5])
         (simp add: bolt_reply_structure_def bolt_reply_map_def seq_def c2 c3 c4 c5)
  qed
  obtain c1 where c1: "reset_cursors client = Inr c1" "composed c1 []"
      "socket c1 = socket client" "state c1 = state client" "reset c1 = reset client"
    using reset_cursors_composed [OF assms(2)] by auto
  show ?thesis
  proof (cases "state client = BS_FAILED")
    case False
    obtain c' where c': "seq (bolt_reply_structure codec c1 BST_SUCCESS 1) (\<lambda>client2.
                   seq (bolt_reply_map codec client2 0) (\<lambda>client3.
                   seq (close_and_send client3) (\<lambda>client4.
                   seq (reset_cursors client4) (\<lambda>client5. Inr (client5\<lparr>reset := False\<rparr>))))) =
                 Inr (c'\<lparr>reset := False\<rparr>)"
        "socket c' = (socket c1)\<lparr>outbound := outbound (socket c1) @ bolt_message (?s @ ?m)\<rparr>"
        "state c' = state c1"
      using success [of c1 "\<lambda>c. c\<lparr>reset := False\<rparr>"] c1 assms(3,4) by auto
    show ?thesis
      by (rule exI [of _ "c'\<lparr>reset := False\<rparr>"])
         (use False assms(1) c1 c' in \<open>simp add: bolt_client_send_def seq_def\<close>)
  next
    case True
    obtain c2 where c2: "write_buf_write c1 ?i = Inr c2" "composed c2 ([] @ ?i)"
        "socket c2 = socket c1" "state c2 = state c1" "reset c2 = reset c1"
      using write_composed [OF c1(2), of ?i] assms(6) by auto
    obtain c3 where c3: "close_and_send c2 = Inr c3" "write_buf_ok c3"
        "socket c3 = (socket c2)\<lparr>outbound := outbound (socket c2) @ bolt_message ([] @ ?i)\<rparr>"
        "state c3 = state c2" "reset c3 = reset c2"
      using close_and_send_composed [OF c2(2)] assms(6,3,4) c1(3) c2(3) by auto
    obtain c4 where c4: "reset_cursors c3 = Inr c4" "composed c4 []" "socket c4 = socket c3"
        "state c4 = state c3" "reset c4 = reset c3"
      using reset_cursors_composed [OF c3(2)] by auto
    have s4: "0 < fd (socket c4)" "\<not> write_fails (socket c4)"
      using c4(3) c3(3) c2(3) c1(3) assms(3,4) by simp_all
    obtain c' where c': "seq (bolt_reply_structure codec c4 BST_SUCCESS 1) (\<lambda>client2.
                   seq (bolt_reply_map codec client2 0) (\<lambda>client3.
                   seq (close_and_send client3) (\<lambda>client4.
                   seq (reset_cursors client4) (\<lambda>client5.
                     Inr (client5\<lparr>reset := False, state := BS_READY\<rparr>))))) =
                 Inr (c'\<lparr>reset := False, state := BS_READY\<rparr>)"
        "socket c' = (socket c4)\<lparr>outbound := outbound (socket c4) @ bolt_message (?s @ ?m)\<rparr>"
      using success [of c4 "\<lambda>c. c\<lparr>reset := False, state := BS_READY\<rparr>"] c4(2) s4 by auto
    show ?thesis
      by (rule exI [of _ "c'\<lparr>reset := False, state := BS_READY\<rparr>"])
         (use True assms(1) c1 c2 c3 c4 c' in
           \<open>simp add: bolt_client_send_def seq_def bolt_reply_structure_def\<close>)
  qed
qed

theorem bolt_client_send_reset_witness:
  "reset (example_client\<lparr>reset := True\<rparr>) \<and> write_buf_ok (example_client\<lparr>reset := True\<rparr>) \<and>
   0 < fd (socket (example_client\<lparr>reset := True\<rparr>)) \<and>
   \<not> write_fails (socket (example_client\<lparr>reset := True\<rparr>)) \<and>
   (\<exists>client'. bolt_client_send example_codec (example_client\<lparr>reset := True\<rparr>) = Inr client' \<and>
      \<not> reset client' \<and>
      outbound (socket client') = [0x00, 0x03, 0xB1, 0x70, 0xA0, 0x00, 0x00] \<and>
      state client' = BS_NEGOTIATION)"
proof -
  have h: "reset (example_client\<lparr>reset := True\<rparr>)" "write_buf_ok (example_client\<lparr>reset := True\<rparr>)"
    "0 < fd (socket (example_client\<lparr>reset := True\<rparr>))"
    "\<not> write_fails (socket (example_client\<lparr>reset := True\<rparr>))"
    "length (structure_header example_codec BST_SUCCESS 1) + length (map_header example_codec 0) + 4
       \<le> 4096"
    "length (structure_header example_codec BST_IGNORED 0) + 4 \<le> 4096"
    by (simp_all add: example_client_def example_socket_def write_buf_ok_def example_codec_def
          length_rm_malloc_chunk)
  show ?thesis
    using h bolt_client_send_reset [OF h]
    by (simp add: example_client_def example_socket_def example_codec_def bolt_message_def)
qed

section \<open>Typed writes and reads\<close>

lemma le_bytes_4: "le_bytes 4 v = [ucast v, ucast (drop_bit 8 v), ucast (drop_bit 16 v), ucast (drop_bit 24 v)]"
proof -
  have "[0..<4] = [0, 1, 2, 3]" by (simp add: upt_rec)
  then show ?thesis by (simp add: le_bytes_def)
qed

lemma bytes_04030201: "le_bytes 4 (0x04030201 :: uint32_t) = [1, 2, 3, 4]"
  by (simp add: le_bytes_4 drop_bit_eq_div)

lemma write_straddling:
  "\<exists>chs. buffer_write [rm_malloc_chunk] \<lparr>chunk = 0, offset = 4094\<rparr> [1, 2, 3, 4] =
           Inr (chs, \<lparr>chunk = 1, offset = 2\<rparr>) \<and>
         chs \<noteq> [] \<and> length (chs ! 0) = 4096 \<and>
         chs = [take 4094 rm_malloc_chunk @ [1, 2], [3, 4] @ drop 2 rm_malloc_chunk]"
proof -
  have first: "chunk_store [rm_malloc_chunk] \<lparr>chunk = 0, offset = 4094\<rparr> [1, 2] =
                 Inr [take 4094 rm_malloc_chunk @ [1, 2]]"
    by (simp add: chunk_store_def chunk_valid_0 length_rm_malloc_chunk unat_BUFFER_CHUNK_SIZE)
  have idx: "buffer_index_add \<lparr>chunk = 0, offset = 4094\<rparr> 2 = \<lparr>chunk = 0, offset = 4096\<rparr>"
    by (simp add: buffer_index_add_def BUFFER_CHUNK_SIZE_def)
  have v1: "chunk_valid [take 4094 rm_malloc_chunk @ [1, 2], rm_malloc_chunk] 1"
    by (simp add: chunk_valid_def length_rm_malloc_chunk unat_BUFFER_CHUNK_SIZE)
  have st2: "chunk_store [take 4094 rm_malloc_chunk @ [1, 2], rm_malloc_chunk]
               \<lparr>chunk = 1, offset = 0\<rparr> [3, 4] =
             Inr [take 4094 rm_malloc_chunk @ [1, 2], [3, 4] @ drop 2 rm_malloc_chunk]"
    using v1 by (simp add: chunk_store_def unat_BUFFER_CHUNK_SIZE numeral_2_eq_2)
  have small: "\<not> BUFFER_CHUNK_SIZE < 2" "buffer_index_add \<lparr>chunk = 1, offset = 0\<rparr> 2 =
      \<lparr>chunk = 1, offset = 2\<rparr>"
    by (simp_all add: buffer_index_add_def BUFFER_CHUNK_SIZE_def)
  have rest: "buffer_write [take 4094 rm_malloc_chunk @ [1, 2], rm_malloc_chunk]
                \<lparr>chunk = 1, offset = 0\<rparr> [3, 4] =
              Inr ([take 4094 rm_malloc_chunk @ [1, 2], [3, 4] @ drop 2 rm_malloc_chunk],
                   \<lparr>chunk = 1, offset = 2\<rparr>)"
    by (subst buffer_write.simps) (simp add: Let_def st2 seq_def small)
  have step: "BUFFER_CHUNK_SIZE < 4098" "unat (BUFFER_CHUNK_SIZE - 4094) = 2"
    "BUFFER_CHUNK_SIZE - 4094 = 2"
    by (simp_all add: BUFFER_CHUNK_SIZE_def)
  have "buffer_write [rm_malloc_chunk] \<lparr>chunk = 0, offset = 4094\<rparr> [1, 2, 3, 4] =
     Inr ([take 4094 rm_malloc_chunk @ [1, 2], [3, 4] @ drop 2 rm_malloc_chunk],
          \<lparr>chunk = 1, offset = 2\<rparr>)"
    by (subst buffer_write.simps) (simp add: Let_def step first idx array_len_def rest)
  then show ?thesis by (simp add: length_rm_malloc_chunk)
qed

text \<open>
  Claim C3 (the code departs from it). With the cursor two bytes before the end of the
  chunk, \<^verbatim>\<open>buffer_write_uint32\<close> splits the value: two bytes end chunk 0 and two bytes
  start a new chunk 1; the cursor is then at (1, 2) and \<^verbatim>\<open>buffer_index_diff\<close> is 4.
  \<^verbatim>\<open>buffer_read_uint32\<close> at the starting cursor dereferences a pointer into chunk 0
  for four bytes, two of them past the end of the chunk: the value is not read back.
\<close>

theorem straddling_uint32_not_read_back:
  "(case buffer_write_uint32 (chunks buffer_at_4094) (write' buffer_at_4094) 0x04030201 of
      Inl e \<Rightarrow> False
    | Inr (chs, w) \<Rightarrow>
        chs = [take 4094 rm_malloc_chunk @ [1, 2], [3, 4] @ drop 2 rm_malloc_chunk] \<and>
        w = \<lparr>chunk = 1, offset = 2\<rparr> \<and>
        buffer_index_diff w (write' buffer_at_4094) = 4 \<and>
        buffer_read_uint32 (buffer_at_4094\<lparr>chunks := chs, write' := w\<rparr>) (read buffer_at_4094) =
          Inl OutOfBounds)"
proof -
  obtain chs where w: "buffer_write [rm_malloc_chunk] \<lparr>chunk = 0, offset = 4094\<rparr> [1, 2, 3, 4] =
           Inr (chs, \<lparr>chunk = 1, offset = 2\<rparr>)" and ne: "chs \<noteq> []" and l: "length (chs ! 0) = 4096"
    and c: "chs = [take 4094 rm_malloc_chunk @ [1, 2], [3, 4] @ drop 2 rm_malloc_chunk]"
    using write_straddling by blast
  have ptr: "chunk_ptr chs \<lparr>chunk = 0, offset = 4094\<rparr> = Inr \<lparr>chunk = 0, offset = 4094\<rparr>"
    using ne l by (simp add: chunk_ptr_def chunk_valid_0 BUFFER_CHUNK_SIZE_def)
  have d: "buffer_index_diff \<lparr>chunk = 1, offset = 2\<rparr> \<lparr>chunk = 0, offset = 4094\<rparr> = 4"
    by (simp add: buffer_index_diff_def BUFFER_CHUNK_SIZE_def)
  have ld: "chunk_load chs \<lparr>chunk = 0, offset = 4094\<rparr> 4 = Inl OutOfBounds"
    by (simp add: chunk_load_def unat_BUFFER_CHUNK_SIZE)
  have rd: "buffer_read_uint32 \<lparr>chunks = chs, read = \<lparr>chunk = 0, offset = 4094\<rparr>,
              write' = \<lparr>chunk = 1, offset = 2\<rparr>\<rparr> \<lparr>chunk = 0, offset = 4094\<rparr> = Inl OutOfBounds"
    by (simp add: buffer_read_uint32_def buffer_read_scalar_def buffer_index_read_def d seq_def
          ptr ld)
  show ?thesis
    unfolding buffer_write_uint32_def buffer_at_4094_def bytes_04030201
    using c [symmetric] by (simp add: w d rd)
qed


section \<open>The bulk copy\<close>

lemma length_concat_uniform:
  "\<forall>ch \<in> set chs. length ch = m \<Longrightarrow> length (concat chs) = m * length chs"
  by (induction chs) simp_all

lemma concat_split_nth:
  "c < length chs \<Longrightarrow> concat chs = concat (take c chs) @ chs ! c @ concat (drop (Suc c) chs)"
  by (metis concat.simps(2) concat_append id_take_nth_drop)

lemma concat_update_nth:
  "c < length chs \<Longrightarrow> concat (chs[c := x]) = concat (take c chs) @ x @ concat (drop (Suc c) chs)"
  by (simp add: upd_conv_take_nth_drop)

lemma length_concat_take:
  assumes "\<forall>ch \<in> set chs. length ch = m" and "c \<le> length chs"
  shows "length (concat (take c chs)) = m * c"
proof -
  have "\<forall>ch \<in> set (take c chs). length ch = m" using assms(1) by (auto dest: in_set_takeD)
  then have "length (concat (take c chs)) = m * length (take c chs)"
    by (rule length_concat_uniform)
  then show ?thesis using assms(2) by simp
qed

lemma flat_store:
  assumes u: "\<forall>ch \<in> set chs. length ch = m" and c: "c < length chs" and b: "off + length d \<le> m"
  shows "concat (chs[c := take off (chs ! c) @ d @ drop (off + length d) (chs ! c)]) =
           take (m * c + off) (concat chs) @ d @ drop (m * c + off + length d) (concat chs)"
proof -
  let ?A = "concat (take c chs)" and ?B = "chs ! c" and ?C = "concat (drop (Suc c) chs)"
  have lA: "length ?A = m * c" using u c by (simp add: length_concat_take)
  have lB: "length ?B = m" using u c by simp
  have flat: "concat chs = ?A @ ?B @ ?C" using c by (rule concat_split_nth)
  have t: "take (m * c + off) (concat chs) = ?A @ take off ?B"
    unfolding flat using lA b lB by simp
  have dr: "drop (m * c + off + length d) (concat chs) = drop (off + length d) ?B @ ?C"
    unfolding flat using lA b lB by simp
  show ?thesis unfolding t dr using c by (simp add: concat_update_nth)
qed

lemma flat_load:
  assumes u: "\<forall>ch \<in> set chs. length ch = m" and c: "c < length chs" and b: "off + n \<le> m"
  shows "take n (drop off (chs ! c)) = take n (drop (m * c + off) (concat chs))"
proof -
  let ?A = "concat (take c chs)" and ?B = "chs ! c" and ?C = "concat (drop (Suc c) chs)"
  have lA: "length ?A = m * c" using u c by (simp add: length_concat_take)
  have lB: "length ?B = m" using u c by simp
  have flat: "concat chs = ?A @ ?B @ ?C" using c by (rule concat_split_nth)
  show ?thesis unfolding flat using lA lB b by simp
qed

lemma chunk_valid_unat:
  assumes "chunks_ok chs" and "unat c < length chs"
  shows "chunk_valid chs c" and "nat (sint c) = unat c"
proof -
  have small: "unat c < 2 ^ 31" using assms by (simp add: chunks_ok_def)
  show n: "nat (sint c) = unat c" using small by (rule nat_sint_small)
  have "0 \<le> sint c" using sint_of_small [OF small] by simp
  then show "chunk_valid chs c"
    using assms n by (simp add: chunk_valid_def chunks_ok_def unat_BUFFER_CHUNK_SIZE)
qed

lemma position_eq: "index_position index = 4096 * unat (chunk index) + unat (offset index)"
  by (simp add: index_position_def unat_BUFFER_CHUNK_SIZE)

lemma memcpy_chunk_flat:
  assumes s: "chunks_ok schs" "unat (chunk sp) < length schs" "unat (offset sp) + k \<le> 4096"
    and d: "chunks_ok dchs" "unat (chunk dp) < length dchs" "unat (offset dp) + k \<le> 4096"
  shows "\<exists>dchs'. memcpy_chunk dchs dp schs sp k = Inr dchs' \<and> chunks_ok dchs' \<and>
           length dchs' = length dchs \<and>
           concat dchs' = take (index_position dp) (concat dchs) @ bytes_at schs sp k @
                          drop (index_position dp + k) (concat dchs) \<and>
           length (bytes_at schs sp k) = k"
proof -
  let ?data = "take k (drop (unat (offset sp)) (schs ! unat (chunk sp)))"
  have us: "\<forall>ch \<in> set schs. length ch = 4096" and ud: "\<forall>ch \<in> set dchs. length ch = 4096"
    using s(1) d(1) by (simp_all add: chunks_ok_def)
  have ld: "chunk_load schs sp k = Inr ?data"
    using s by (simp add: chunk_load_def chunk_valid_unat unat_BUFFER_CHUNK_SIZE)
  have data: "?data = bytes_at schs sp k"
    unfolding bytes_at_def position_eq by (rule flat_load [OF us s(2,3)])
  have lsrc: "length (schs ! unat (chunk sp)) = 4096" using us s(2) by simp
  have len: "length ?data = k" using s(3) lsrc by simp
  let ?dchs' = "dchs[unat (chunk dp) :=
                  take (unat (offset dp)) (dchs ! unat (chunk dp)) @ ?data @
                  drop (unat (offset dp) + length ?data) (dchs ! unat (chunk dp))]"
  have st: "chunk_store dchs dp ?data = Inr ?dchs'"
    using d len by (simp add: chunk_store_def chunk_valid_unat unat_BUFFER_CHUNK_SIZE)
  have b: "unat (offset dp) + length ?data \<le> 4096" using d(3) len by simp
  have flat: "concat ?dchs' = take (index_position dp) (concat dchs) @ ?data @
                drop (index_position dp + length ?data) (concat dchs)"
    unfolding position_eq by (rule flat_store [OF ud d(2) b])
  have ldst: "length (dchs ! unat (chunk dp)) = 4096" using ud d(2) by simp
  have ok: "chunks_ok ?dchs'"
    using d(1,2) b ldst len
    by (auto simp: chunks_ok_def dest!: set_update_subset_insert [THEN subsetD])
  show ?thesis
    unfolding memcpy_chunk_def ld seq_def
    using st ok flat len data by simp
qed

lemma copy_step:
  fixes D D1 D' S d1 e :: "'a list"
  assumes D1: "D1 = take pd D @ d1 @ drop (pd + k) D" and l: "length d1 = k"
    and b: "pd + k \<le> length D" and d1: "d1 = take k (drop ps S)" and kn: "k \<le> n"
    and rest: "take (n - k) (drop (pd + k) D') = take (n - k) (drop (ps + k) S)"
    and pre: "take (pd + k) D' = take (pd + k) (D1 @ e)"
  shows "take n (drop pd D') = take n (drop ps S)" and "take pd D' = take pd D"
proof -
  have lt: "length (take pd D) = pd" using b by simp
  have p1: "take (pd + k) (D1 @ e) = take pd D @ d1"
    unfolding D1 using lt l by simp
  have "take pd D' = take pd (take (pd + k) D')" by simp
  also have "\<dots> = take pd (take pd D @ d1)" unfolding pre p1 ..
  also have "\<dots> = take pd D" using lt by simp
  finally show "take pd D' = take pd D" .
  have "take k (drop pd D') = drop pd (take (pd + k) D')" by (simp add: drop_take)
  also have "\<dots> = drop pd (take pd D @ d1)" unfolding pre p1 ..
  also have "\<dots> = d1" using lt by simp
  finally have first: "take k (drop pd D') = d1" .
  have n: "n = k + (n - k)" using kn by simp
  have "take n (drop pd D') = take k (drop pd D') @ take (n - k) (drop k (drop pd D'))"
    by (subst n) (simp only: take_add)
  also have "\<dots> = d1 @ take (n - k) (drop (ps + k) S)"
    using first rest by (simp add: add.commute)
  also have "\<dots> = take k (drop ps S) @ take (n - k) (drop k (drop ps S))"
    using d1 by (simp add: add.commute)
  also have "\<dots> = take n (drop ps S)"
    by (subst (2) n) (simp only: take_add)
  finally show "take n (drop pd D') = take n (drop ps S)" .
qed

lemma index_add_small:
  assumes "unat (offset index) + unat k \<le> 4096"
  shows "buffer_index_add index k = index\<lparr>offset := offset index + k\<rparr>"
    and "index_position (buffer_index_add index k) = index_position index + unat k"
proof -
  have u: "unat (offset index + k) = unat (offset index) + unat k"
    using assms by (simp add: unat_add_lem [THEN iffD1])
  have "\<not> BUFFER_CHUNK_SIZE < offset index + k"
    using assms by (simp add: word_less_nat_alt u unat_BUFFER_CHUNK_SIZE)
  then show a: "buffer_index_add index k = index\<lparr>offset := offset index + k\<rparr>"
    by (simp add: buffer_index_add_def Let_def)
  show "index_position (buffer_index_add index k) = index_position index + unat k"
    unfolding a by (simp add: index_position_def u)
qed

lemma unat_available:
  "unat (offset index) \<le> 4096 \<Longrightarrow> unat (BUFFER_CHUNK_SIZE - offset index) = 4096 - unat (offset index)"
  by (simp add: unat_sub word_le_nat_alt unat_BUFFER_CHUNK_SIZE)

lemma array_len_eq_iff:
  assumes "length chs < 2 ^ 31"
  shows "array_len chs = w \<longleftrightarrow> length chs = unat w"
proof -
  have "unat (of_nat (length chs) :: uint32_t) = length chs"
    using assms by (simp add: unsigned_of_nat take_bit_nat_eq_self)
  then show ?thesis unfolding array_len_def by (auto simp: word_unat_eq_iff)
qed

lemma length_rm_malloc_set: "ch \<in> set [rm_malloc_chunk] \<Longrightarrow> length ch = 4096"
  by (simp add: length_rm_malloc_chunk)

lemma buffer_read_loop_copies:
  "copy_pre schs buf dchs dst size' \<Longrightarrow>
   \<exists>r. buffer_read_loop schs buf dchs dst size' = Inr r \<and> copy_post schs buf dchs dst size' r"
proof (induction schs buf dchs dst size' rule: buffer_read_loop.induct)
  case (1 schs buf dchs dst size')
  let ?n = "unat size'" and ?os = "unat (offset buf)" and ?od = "unat (offset dst)"
  let ?ps = "index_position buf" and ?pd = "index_position dst"
  let ?S = "concat schs" and ?D = "concat dchs"
  have oks: "chunks_ok schs" and okd: "chunks_ok dchs"
    and os: "?os \<le> 4096" and od: "?od \<le> 4096"
    and cd: "unat (chunk dst) < length dchs"
    and fit: "?ps + ?n \<le> 4096 * length schs"
    and J: "length dchs + (?od + ?n) div 4096 < 2 ^ 31"
    using "1.prems" by (simp_all add: copy_pre_def)
  have us: "\<forall>ch \<in> set schs. length ch = 4096" and ud: "\<forall>ch \<in> set dchs. length ch = 4096"
    and ls: "length schs < 2 ^ 31" and ld: "length dchs < 2 ^ 31"
    using oks okd by (simp_all add: chunks_ok_def)
  have lS: "length ?S = 4096 * length schs" using us by (rule length_concat_uniform)
  have lD: "length ?D = 4096 * length dchs" using ud by (rule length_concat_uniform)
  have pdD: "?pd \<le> length ?D"
  proof -
    have "4096 * unat (chunk dst) + 4096 \<le> 4096 * length dchs" using cd by simp
    then show ?thesis unfolding lD position_eq using od by simp
  qed
  have lbytes: "length (bytes_at schs buf ?n) = ?n"
    unfolding bytes_at_def using fit lS by simp
  show ?case
  proof (cases "size' = 0")
    case True
    have "buffer_read_loop schs buf dchs dst size' = Inr (buf, dchs, dst)"
      by (subst buffer_read_loop.simps) (simp add: True)
    moreover have "copy_post schs buf dchs dst size' (buf, dchs, dst)"
      using okd True by (simp add: copy_post_def bytes_at_def)
    ultimately show ?thesis by blast
  next
    case False
    then have pos: "0 < size'" and npos: "0 < ?n"
      by (simp_all add: word_greater_zero_iff unat_gt_0)
    have cs: "unat (chunk buf) < length schs"
    proof (rule ccontr)
      assume "\<not> unat (chunk buf) < length schs"
      then have "4096 * length schs \<le> 4096 * unat (chunk buf)" by simp
      then show False using fit npos unfolding position_eq by simp
    qed
    have pS: "chunk_ptr schs buf = Inr buf"
      using os chunk_valid_unat(1) [OF oks cs]
      by (simp add: chunk_ptr_def word_le_nat_alt unat_BUFFER_CHUNK_SIZE)
    have pD: "chunk_ptr dchs dst = Inr dst"
      using od chunk_valid_unat(1) [OF okd cd]
      by (simp add: chunk_ptr_def word_le_nat_alt unat_BUFFER_CHUNK_SIZE)
    let ?sav = "BUFFER_CHUNK_SIZE - offset buf" and ?dav = "BUFFER_CHUNK_SIZE - offset dst"
    have sav: "unat ?sav = 4096 - ?os" using os by (rule unat_available)
    have dav: "unat ?dav = 4096 - ?od" using od by (rule unat_available)
    have A_iff: "size' < ?sav \<and> size' < ?dav \<longleftrightarrow> ?n < 4096 - ?os \<and> ?n < 4096 - ?od"
      by (simp add: word_less_nat_alt sav dav)
    have B_iff: "?sav < ?dav \<longleftrightarrow> 4096 - ?os < 4096 - ?od"
      by (simp add: word_less_nat_alt sav dav)
    consider (A) "?n < 4096 - ?os" "?n < 4096 - ?od"
      | (B) "\<not> (?n < 4096 - ?os \<and> ?n < 4096 - ?od)" "4096 - ?os < 4096 - ?od"
      | (C) "\<not> (?n < 4096 - ?os \<and> ?n < 4096 - ?od)" "\<not> 4096 - ?os < 4096 - ?od"
      by blast
    then show ?thesis
    proof cases
      case A
      obtain dchs1 where m: "memcpy_chunk dchs dst schs buf ?n = Inr dchs1"
        and ok1: "chunks_ok dchs1" and l1: "length dchs1 = length dchs"
        and f1: "concat dchs1 = take ?pd ?D @ bytes_at schs buf ?n @ drop (?pd + ?n) ?D"
      proof -
        have "?os + ?n \<le> 4096" "?od + ?n \<le> 4096" using A by simp_all
        from memcpy_chunk_flat [OF oks cs this(1) okd cd this(2)] that show ?thesis by blast
      qed
      have ib: "buffer_index_add buf size' = buf\<lparr>offset := offset buf + size'\<rparr>"
          "index_position (buffer_index_add buf size') = ?ps + ?n"
        using index_add_small [of buf size'] A by simp_all
      have id: "buffer_index_add dst size' = dst\<lparr>offset := offset dst + size'\<rparr>"
          "index_position (buffer_index_add dst size') = ?pd + ?n"
        using index_add_small [of dst size'] A by simp_all
      have eq: "buffer_read_loop schs buf dchs dst size' =
            Inr (buffer_index_add buf size', dchs1, buffer_index_add dst size')"
        using A by (subst buffer_read_loop.simps) (simp add: pos pS pD Let_def A_iff m seq_def)
      have b1: "bytes_at dchs1 dst ?n = bytes_at schs buf ?n"
        unfolding bytes_at_def [of dchs1] f1 using pdD lbytes by simp
      have t1: "take ?pd (concat dchs1) = take ?pd ?D"
        unfolding f1 using pdD by simp
      have "copy_post schs buf dchs dst size'
              (buffer_index_add buf size', dchs1, buffer_index_add dst size')"
        using ok1 l1 b1 lbytes t1 ib(2) id(2) by (simp add: copy_post_def)
      with eq show ?thesis by blast
    next
      case B
      let ?k = "4096 - ?os"
      have kn: "?k \<le> ?n" using B by arith
      have kd: "?od + ?k < 4096" using B os od by arith
      obtain dchs1 where m: "memcpy_chunk dchs dst schs buf (unat ?sav) = Inr dchs1"
        and ok1: "chunks_ok dchs1" and l1: "length dchs1 = length dchs"
        and f1: "concat dchs1 = take ?pd ?D @ bytes_at schs buf ?k @ drop (?pd + ?k) ?D"
        and lk: "length (bytes_at schs buf ?k) = ?k"
      proof -
        have "?os + ?k \<le> 4096" "?od + ?k \<le> 4096" using os kd by simp_all
        from memcpy_chunk_flat [OF oks cs this(1) okd cd this(2)] that show ?thesis
          unfolding sav by blast
      qed
      let ?buf1 = "buf\<lparr>offset := 0, chunk := chunk buf + 1\<rparr>"
      let ?dst1 = "dst\<lparr>offset := offset dst + ?sav\<rparr>"
      have n1: "unat (size' - ?sav) = ?n - ?k"
        using kn sav by (simp add: unat_sub word_le_nat_alt)
      have c1: "unat (chunk buf + 1) = unat (chunk buf) + 1"
        using cs ls by (simp add: unat_add_lem [THEN iffD1])
      have o1: "unat (offset dst + ?sav) = ?od + ?k"
        using kd sav by (simp add: unat_add_lem [THEN iffD1])
      have ps1: "index_position ?buf1 = ?ps + ?k"
        using os by (simp add: position_eq c1)
      have pd1: "index_position ?dst1 = ?pd + ?k"
        by (simp add: position_eq o1)
      have pre1: "copy_pre schs ?buf1 dchs1 ?dst1 (size' - ?sav)"
        unfolding copy_pre_def n1 ps1
        using oks ok1 o1 kd cd l1 fit kn J by simp
      obtain r where r: "buffer_read_loop schs ?buf1 dchs1 ?dst1 (size' - ?sav) = Inr r"
        and post: "copy_post schs ?buf1 dchs1 ?dst1 (size' - ?sav) r"
        using "1.IH"(1) [OF pos pS pD refl refl _ _ m pre1] A_iff B_iff B by blast
      obtain buf' dchs' dst' where r3: "r = (buf', dchs', dst')" by (cases r) auto
      have eq: "buffer_read_loop schs buf dchs dst size' = Inr (buf', dchs', dst')"
        using B by (subst buffer_read_loop.simps) (simp add: pos pS pD Let_def A_iff B_iff m r r3)
      have okr: "chunks_ok dchs'" and lr: "length dchs1 \<le> length dchs'"
        and br: "take (?n - ?k) (drop (?pd + ?k) (concat dchs')) =
                 take (?n - ?k) (drop (?ps + ?k) ?S)"
        and tr: "take (?pd + ?k) (concat dchs') = take (?pd + ?k) (concat dchs1 @ [])"
        and pbr: "index_position buf' = ?ps + ?k + (?n - ?k)"
        and pdr: "index_position dst' = ?pd + ?k + (?n - ?k)"
        using post unfolding r3 copy_post_def n1 ps1 pd1 bytes_at_def by simp_all
      have fitk: "?pd + ?k \<le> length ?D"
      proof -
        have "4096 * unat (chunk dst) + 4096 \<le> 4096 * length dchs" using cd by simp
        then show ?thesis unfolding lD position_eq using kd by simp
      qed
      note cs = copy_step [OF f1 lk fitk bytes_at_def kn br tr]
      have "copy_post schs buf dchs dst size' (buf', dchs', dst')"
        using okr lr l1 cs lbytes pbr pdr kn by (simp add: copy_post_def bytes_at_def)
      with eq show ?thesis by blast
    next
      case C
      let ?k = "4096 - ?od"
      have kn: "?k \<le> ?n" using C by arith
      have ks: "?os + ?k \<le> 4096" using C od os by arith
      obtain dchs1 where m: "memcpy_chunk dchs dst schs buf (unat ?dav) = Inr dchs1"
        and ok1: "chunks_ok dchs1" and l1: "length dchs1 = length dchs"
        and f1: "concat dchs1 = take ?pd ?D @ bytes_at schs buf ?k @ drop (?pd + ?k) ?D"
        and lk: "length (bytes_at schs buf ?k) = ?k"
      proof -
        have "?od + ?k \<le> 4096" using od by simp
        from memcpy_chunk_flat [OF oks cs ks okd cd this] that show ?thesis
          unfolding dav by blast
      qed
      let ?buf1 = "buf\<lparr>offset := offset buf + ?dav\<rparr>"
      let ?dst1 = "dst\<lparr>offset := 0, chunk := chunk dst + 1\<rparr>"
      let ?dchs2 = "if array_len dchs1 = chunk ?dst1 then dchs1 @ [rm_malloc_chunk] else dchs1"
      have n1: "unat (size' - ?dav) = ?n - ?k"
        using kn dav by (simp add: unat_sub word_le_nat_alt)
      have c1: "unat (chunk dst + 1) = unat (chunk dst) + 1"
        using cd ld by (simp add: unat_add_lem [THEN iffD1])
      have o1: "unat (offset buf + ?dav) = ?os + ?k"
        using ks dav by (simp add: unat_add_lem [THEN iffD1])
      have ps1: "index_position ?buf1 = ?ps + ?k"
        by (simp add: position_eq o1)
      have pd1: "index_position ?dst1 = ?pd + ?k"
        using od by (simp add: position_eq c1)
      have grow: "array_len dchs1 = chunk ?dst1 \<longleftrightarrow> length dchs = unat (chunk dst) + 1"
        using array_len_eq_iff [of dchs1 "chunk dst + 1"] l1 ld c1 by simp
      have div1: "(?od + ?n) div 4096 = Suc ((?n - ?k) div 4096)"
      proof -
        have "?od + ?n = (?n - ?k) + 4096" using kn od by simp
        then show ?thesis by simp
      qed
      have l2: "length ?dchs2 \<le> length dchs + 1" "length dchs \<le> length ?dchs2"
        using l1 by simp_all
      have ok2: "chunks_ok ?dchs2"
        using ok1 l1 J div1 by (auto simp: chunks_ok_def length_rm_malloc_chunk)
      have cd2: "unat (chunk ?dst1) < length ?dchs2"
        using cd l1 c1 grow by auto
      have pre1: "copy_pre schs ?buf1 ?dchs2 ?dst1 (size' - ?dav)"
        unfolding copy_pre_def n1 ps1
        using oks ok2 o1 ks cd2 fit kn J div1 l2 by simp
      obtain r where r: "buffer_read_loop schs ?buf1 ?dchs2 ?dst1 (size' - ?dav) = Inr r"
        and post: "copy_post schs ?buf1 ?dchs2 ?dst1 (size' - ?dav) r"
        using "1.IH"(2) [OF pos pS pD refl refl _ _ m refl refl pre1] A_iff B_iff C by blast
      obtain buf' dchs' dst' where r3: "r = (buf', dchs', dst')" by (cases r) auto
      have "buffer_read_loop schs buf dchs dst size' =
            buffer_read_loop schs ?buf1 ?dchs2 ?dst1 (size' - ?dav)"
      proof -
        have nA: "\<not> (size' < ?sav \<and> size' < ?dav)" using C(1) A_iff by blast
        have nB: "\<not> ?sav < ?dav" using C(2) B_iff by blast
        show ?thesis
          by (subst buffer_read_loop.simps)
             (simp add: pos pS pD Let_def nA nB m split del: if_split)
      qed
      then have eq: "buffer_read_loop schs buf dchs dst size' = Inr (buf', dchs', dst')"
        using r r3 by simp
      have "\<exists>e. concat ?dchs2 = concat dchs1 @ e" by simp
      then obtain e where e: "concat ?dchs2 = concat dchs1 @ e" ..
      have okr: "chunks_ok dchs'" and lr: "length ?dchs2 \<le> length dchs'"
        and br: "take (?n - ?k) (drop (?pd + ?k) (concat dchs')) =
                 take (?n - ?k) (drop (?ps + ?k) ?S)"
        and tr: "take (?pd + ?k) (concat dchs') = take (?pd + ?k) (concat dchs1 @ e)"
        and pbr: "index_position buf' = ?ps + ?k + (?n - ?k)"
        and pdr: "index_position dst' = ?pd + ?k + (?n - ?k)"
        using post unfolding r3 copy_post_def n1 ps1 pd1 bytes_at_def e by simp_all
      have fitk: "?pd + ?k \<le> length ?D"
      proof -
        have "4096 * unat (chunk dst) + 4096 \<le> 4096 * length dchs" using cd by simp
        then show ?thesis unfolding lD position_eq using od by simp
      qed
      note cs = copy_step [OF f1 lk fitk bytes_at_def kn br tr]
      have "copy_post schs buf dchs dst size' (buf', dchs', dst')"
        using okr lr l2 cs lbytes pbr pdr kn by (simp add: copy_post_def bytes_at_def)
      with eq show ?thesis by blast
    qed
  qed
qed

lemma assert_readable:
  fixes n :: uint32_t
  assumes "index_position buf + unat n \<le> index_position w"
    and "index_position w - index_position buf < 65536"
  shows "n \<le> ucast (buffer_index_diff w buf)"
proof -
  have le: "index_position buf \<le> index_position w" using assms(1) by simp
  have "unat (buffer_index_diff w buf) = index_position w - index_position buf"
    unfolding buffer_index_diff_def diff32 [OF le] using assms(2) by (rule ucast_of_nat_16)
  then have "unat n \<le> unat (buffer_index_diff w buf)" using assms(1) by simp
  moreover have "unat (ucast (buffer_index_diff w buf) :: uint32_t) = unat (buffer_index_diff w buf)"
    using unsigned_less [of "buffer_index_diff w buf", where 'a = nat]
    by (simp add: unsigned_ucast_eq take_bit_nat_eq_self)
  ultimately show ?thesis by (simp add: word_le_nat_alt)
qed

text \<open>
  Claim C7, as amended. For a source buffer and a destination buffer whose chunks all
  have the chunk size, a source cursor with at least \<open>n\<close> bytes before the write
  cursor of its buffer and fewer than 65536 bytes between the two, and a destination
  cursor in an existing chunk: \<^verbatim>\<open>buffer_read\<close> returns, the \<open>n\<close> bytes at the
  destination's original cursor are afterwards the \<open>n\<close> bytes at the source's original
  cursor, the destination bytes before that cursor are unchanged, both cursors have
  advanced by exactly \<open>n\<close>, and the destination keeps its chunks and has new ones when
  the copy needed them. Nothing is assumed about where the chunk boundaries fall.
\<close>

theorem buffer_read_copies:
  assumes "chunks_ok (chunks b)" and "chunks_ok dchs"
    and "offset buf \<le> BUFFER_CHUNK_SIZE" and "offset dst \<le> BUFFER_CHUNK_SIZE"
    and "unat (chunk dst) < length dchs"
    and "index_position buf + unat n \<le> index_position (write' b)"
    and "index_position (write' b) \<le> 4096 * length (chunks b)"
    and "index_position (write' b) - index_position buf < 65536"
    and "length dchs + (unat (offset dst) + unat n) div 4096 < 2 ^ 31"
  shows "\<exists>buf' dchs' dst'.
           buffer_read b buf dchs dst n = Inr (buf', dchs', dst') \<and>
           bytes_at dchs' dst (unat n) = bytes_at (chunks b) buf (unat n) \<and>
           length (bytes_at (chunks b) buf (unat n)) = unat n \<and>
           take (index_position dst) (concat dchs') = take (index_position dst) (concat dchs) \<and>
           index_position buf' = index_position buf + unat n \<and>
           index_position dst' = index_position dst + unat n \<and>
           chunks_ok dchs' \<and> length dchs \<le> length dchs'"
proof -
  have pass: "n \<le> ucast (buffer_index_diff (write' b) buf)"
    using assms(6,8) by (rule assert_readable)
  have pre: "copy_pre (chunks b) buf dchs dst n"
    unfolding copy_pre_def
    using assms unat_offset_le [of buf] unat_offset_le [of dst] by simp
  obtain r where r: "buffer_read_loop (chunks b) buf dchs dst n = Inr r"
    and post: "copy_post (chunks b) buf dchs dst n r"
    using buffer_read_loop_copies [OF pre] by blast
  obtain buf' dchs' dst' where r3: "r = (buf', dchs', dst')" by (cases r) auto
  have "buffer_read b buf dchs dst n = Inr (buf', dchs', dst')"
    using pass r r3 by (simp add: buffer_read_def)
  then show ?thesis using post unfolding r3 copy_post_def by auto
qed

theorem buffer_read_copies_witness:
  "chunks_ok (chunks two_chunk_buffer) \<and> chunks_ok [rm_malloc_chunk] \<and>
   offset \<lparr>chunk = 0, offset = 4090\<rparr> \<le> BUFFER_CHUNK_SIZE \<and>
   offset \<lparr>chunk = 0, offset = 4086\<rparr> \<le> BUFFER_CHUNK_SIZE \<and>
   unat (chunk \<lparr>chunk = 0, offset = 4086\<rparr>) < length [rm_malloc_chunk] \<and>
   index_position \<lparr>chunk = 0, offset = 4090\<rparr> + unat (20 :: uint32_t)
     \<le> index_position (write' two_chunk_buffer) \<and>
   index_position (write' two_chunk_buffer) \<le> 4096 * length (chunks two_chunk_buffer) \<and>
   index_position (write' two_chunk_buffer) - index_position \<lparr>chunk = 0, offset = 4090\<rparr> < 65536 \<and>
   (\<exists>buf' dchs' dst'.
      buffer_read two_chunk_buffer \<lparr>chunk = 0, offset = 4090\<rparr> [rm_malloc_chunk]
        \<lparr>chunk = 0, offset = 4086\<rparr> 20 = Inr (buf', dchs', dst') \<and>
      bytes_at dchs' \<lparr>chunk = 0, offset = 4086\<rparr> 20 = replicate 6 7 @ replicate 14 9 \<and>
      index_position buf' = 4110 \<and> index_position dst' = 4106 \<and> length dchs' \<ge> 1)"
proof -
  have h: "chunks_ok (chunks two_chunk_buffer)" "chunks_ok [rm_malloc_chunk]"
    "offset \<lparr>chunk = 0, offset = 4090\<rparr> \<le> BUFFER_CHUNK_SIZE"
    "offset \<lparr>chunk = 0, offset = 4086\<rparr> \<le> BUFFER_CHUNK_SIZE"
    "unat (chunk \<lparr>chunk = 0, offset = 4086\<rparr>) < length [rm_malloc_chunk]"
    "index_position \<lparr>chunk = 0, offset = 4090\<rparr> + unat (20 :: uint32_t)
       \<le> index_position (write' two_chunk_buffer)"
    "index_position (write' two_chunk_buffer) \<le> 4096 * length (chunks two_chunk_buffer)"
    "index_position (write' two_chunk_buffer) - index_position \<lparr>chunk = 0, offset = 4090\<rparr> < 65536"
    "length [rm_malloc_chunk] + (unat (offset \<lparr>chunk = 0, offset = 4086\<rparr>) + unat (20 :: uint32_t)) div 4096
       < 2 ^ 31"
    by (simp_all add: chunks_ok_def two_chunk_buffer_def length_rm_malloc_chunk index_position_def
          BUFFER_CHUNK_SIZE_def)
  have src: "bytes_at (chunks two_chunk_buffer) \<lparr>chunk = 0, offset = 4090\<rparr> (unat (20 :: uint32_t)) =
             replicate 6 7 @ replicate 14 9"
    by (simp add: bytes_at_def two_chunk_buffer_def index_position_def BUFFER_CHUNK_SIZE_def)
  from buffer_read_copies [OF h] obtain buf' dchs' dst' where
    r: "buffer_read two_chunk_buffer \<lparr>chunk = 0, offset = 4090\<rparr> [rm_malloc_chunk]
          \<lparr>chunk = 0, offset = 4086\<rparr> 20 = Inr (buf', dchs', dst')"
    and b: "bytes_at dchs' \<lparr>chunk = 0, offset = 4086\<rparr> (unat (20 :: uint32_t)) =
            bytes_at (chunks two_chunk_buffer) \<lparr>chunk = 0, offset = 4090\<rparr> (unat (20 :: uint32_t))"
    and p: "index_position buf' = index_position \<lparr>chunk = 0, offset = 4090\<rparr> + unat (20 :: uint32_t)"
      "index_position dst' = index_position \<lparr>chunk = 0, offset = 4086\<rparr> + unat (20 :: uint32_t)"
    and l: "length [rm_malloc_chunk] \<le> length dchs'"
    by blast
  have "\<exists>buf' dchs' dst'.
      buffer_read two_chunk_buffer \<lparr>chunk = 0, offset = 4090\<rparr> [rm_malloc_chunk]
        \<lparr>chunk = 0, offset = 4086\<rparr> 20 = Inr (buf', dchs', dst') \<and>
      bytes_at dchs' \<lparr>chunk = 0, offset = 4086\<rparr> 20 = replicate 6 7 @ replicate 14 9 \<and>
      index_position buf' = 4110 \<and> index_position dst' = 4106 \<and> length dchs' \<ge> 1"
    by (rule exI [of _ buf'], rule exI [of _ dchs'], rule exI [of _ dst'])
       (use r b p l src in \<open>simp add: index_position_def BUFFER_CHUNK_SIZE_def\<close>)
  with h(1-8) show ?thesis by blast
qed

text \<open>
  Claim C7 as stated fails: with 65536 bytes between the source cursor and the write
  cursor, one byte is readable, but \<^verbatim>\<open>buffer_index_diff\<close> is a 16-bit value and
  wraps to 0, so the assertion at the entry of \<^verbatim>\<open>buffer_read\<close> traps.
\<close>

theorem buffer_read_far_write_cursor_counterexample:
  "chunks_ok (chunks buffer_64k) \<and>
   index_position \<lparr>chunk = 0, offset = 0\<rparr> + unat (1 :: uint32_t) \<le> index_position (write' buffer_64k) \<and>
   index_position (write' buffer_64k) \<le> 4096 * length (chunks buffer_64k) \<and>
   buffer_read buffer_64k \<lparr>chunk = 0, offset = 0\<rparr> [rm_malloc_chunk] \<lparr>chunk = 0, offset = 0\<rparr> 1 =
     Inl AssertionFailed"
  by (simp add: chunks_ok_def buffer_64k_def length_rm_malloc_chunk index_position_def
        buffer_read_def buffer_index_diff_def BUFFER_CHUNK_SIZE_def)

end
